theory Spec2Isabelle
  imports Main "HOL-Library.Word"
begin

unbundle bit_operations_syntax

section \<open>The SRP electronics firmware: data model\<close>

text \<open>
  The firmware runs on an 8-bit AVR. Every \<open>uint8_t\<close> is an \<open>8 word\<close> and every
  \<open>uint16_t\<close> a \<open>16 word\<close>, so that arithmetic wraps as it does on the target.
  The file-scope variables of all modules, the EEPROM variables and the I/O registers
  the code touches are the fields of one record, and every routine takes the record and
  returns the updated one. A fixed-size C array is a list of that size; an access past
  its end is undefined behaviour in C and is the result \<open>None\<close> here, as is a
  busy-wait that does not come to an end.
\<close>

type_synonym u8 = "8 word"
type_synonym u16 = "16 word"

text \<open>\<open>state_type\<close> of state_machine.cpp, with the numeric values of the enum.\<close>

datatype state_type =
  ERROR | SYSTEMS_CHECK | IDLE | PREPARATION | ARMED | LAUNCHED | DEPLOYED

fun state_value :: "state_type \<Rightarrow> nat" where
  "state_value ERROR = 0"
| "state_value SYSTEMS_CHECK = 1"
| "state_value IDLE = 2"
| "state_value PREPARATION = 3"
| "state_value ARMED = 4"
| "state_value LAUNCHED = 5"
| "state_value DEPLOYED = 6"

text \<open>The link layer states of lbp.cpp and the buzzer states of actuators.cpp.\<close>

datatype link_state =
  STATE_IDLE | STATE_FRAME | STATE_ESCAPING | STATE_ENDING | STATE_FILLING

datatype buzzer_phase = BUZZER_OFF | BUZZER_ON | BUZZER_COOLDOWN

record mcu =
  \<comment> \<open>state_machine.cpp\<close>
  flight_state :: state_type
  \<comment> \<open>actuators.cpp: \<open>buzzer_queue.index\<close>, \<open>.length\<close>, \<open>.queue[i].duration\<close>\<close>
  bq_index :: u8
  bq_length :: u8
  bq_queue :: "u8 list"
  buzzer_state :: buzzer_phase
  current_beep_duration :: u8
  timer_20ms :: u16
  \<comment> \<open>eeprom.cpp: the EEMEM variables\<close>
  min_deploy_time :: u16
  max_deploy_time :: u16
  last_logged_deploy_time :: u16
  battery_empty_limit :: u8
  use_servo :: u8
  servo_closed_position :: u8
  servo_open_position :: u8
  lbp_address :: u8
  \<comment> \<open>I/O registers\<close>
  PORTA :: u8
  PORTB :: u8
  PORTC :: u8
  PINA :: u8
  PINB :: u8
  PINC :: u8
  OCR1B :: u16
  ADCSRA :: u8
  ADCH :: u8
  \<comment> \<open>lbp.cpp\<close>
  rx_link_state :: link_state
  rx_crc :: u8
  tx_link_state :: link_state
  tx_crc :: u8
  lbp_rx_buffer :: "u8 list"
  lbp_rx_buffer_length :: u8
  lbp_tx_buffer :: "u8 list"
  lbp_tx_buffer_length :: u8
  lbp_tx_buffer_index :: u8
  \<comment> \<open>the bytes written to the UART data register \<open>UDR0\<close>, oldest first\<close>
  UDR0_sent :: "u8 list"

section \<open>config.h: pin access\<close>

definition MASK :: "u8 \<Rightarrow> nat \<Rightarrow> u8 \<Rightarrow> u8" where
  "MASK name shift v = (name AND NOT (push_bit shift 1)) OR push_bit shift v"

definition READ_PIN :: "u8 \<Rightarrow> nat \<Rightarrow> u8" where
  "READ_PIN pin_reg n = pin_reg AND push_bit n 1"

definition ON :: u8 where "ON = 1"
definition OFF :: u8 where "OFF = 0"

section \<open>inputs.cpp\<close>

definition is_vote_asserted :: "mcu \<Rightarrow> u8" where
  "is_vote_asserted s = (if READ_PIN (PINC s) 1 = 0 then 1 else 0)"

definition is_squib_connected :: "mcu \<Rightarrow> u8" where
  "is_squib_connected s = READ_PIN (PINA s) 5"

definition is_armed :: "mcu \<Rightarrow> u8" where
  "is_armed s = (if READ_PIN (PINA s) 4 = 0 then 1 else 0)"

definition is_breakwire_connected :: "mcu \<Rightarrow> u8" where
  "is_breakwire_connected s = READ_PIN (PINB s) 1"

text \<open>
  \<open>get_battery_value\<close> spins until the conversion-complete flag \<open>ADIF\<close> of
  \<open>ADCSRA\<close> is set and then returns \<open>ADCH\<close>. Nothing in the firmware writes the
  flag, so on a given register contents the wait ends at once or never: never is
  \<open>None\<close>. The bit number is the one of the device header (bit 4).
\<close>

definition ADIF :: nat where "ADIF = 4"

definition get_battery_value :: "mcu \<Rightarrow> u8 option" where
  "get_battery_value s =
     (if ADCSRA s AND push_bit ADIF 1 \<noteq> 0 then Some (ADCH s) else None)"

section \<open>actuators.cpp\<close>

definition BEEP_SHORT :: u8 where "BEEP_SHORT = 12"
definition BEEP_NORMAL :: u8 where "BEEP_NORMAL = 25"
definition BEEP_LONG :: u8 where "BEEP_LONG = 50"
definition BUZZER_QUEUE_SIZE :: nat where "BUZZER_QUEUE_SIZE = 8"

definition servo_tick :: "mcu \<Rightarrow> mcu" where
  "servo_tick s = s\<lparr>PORTC := MASK (PORTC s) 0 1\<rparr>"

definition timer_tick :: "mcu \<Rightarrow> mcu" where
  "timer_tick s = s\<lparr>timer_20ms := timer_20ms s + 1\<rparr>"

text \<open>
  \<open>buzzer_tick\<close>. The comparison of \<open>current_beep_duration\<close> with the duration of
  the entry at \<open>index\<close> reads the queue array, whatever the length of the queue is.
\<close>

definition buzzer_tick :: "mcu \<Rightarrow> mcu option" where
  "buzzer_tick s =
     (if buzzer_state s = BUZZER_OFF then
        Some (if bq_length s \<noteq> 0
              then s\<lparr>buzzer_state := BUZZER_ON, current_beep_duration := 0,
                     PORTB := MASK (PORTB s) 3 1\<rparr>
              else s)
      else if length (bq_queue s) \<le> unat (bq_index s) then None
      else
        let s1 = s\<lparr>current_beep_duration := current_beep_duration s + 1\<rparr> in
        if bq_queue s1 ! unat (bq_index s1) < current_beep_duration s1 then
          (if buzzer_state s1 = BUZZER_ON then
             Some (s1\<lparr>buzzer_state := BUZZER_COOLDOWN, current_beep_duration := 0,
                       PORTB := MASK (PORTB s1) 3 0\<rparr>)
           else
             let s2 = s1\<lparr>bq_index := of_nat ((unat (bq_index s1) + 1) mod BUZZER_QUEUE_SIZE),
                          bq_length := bq_length s1 - 1\<rparr> in
             Some (if bq_length s2 \<noteq> 0
                   then s2\<lparr>buzzer_state := BUZZER_ON, current_beep_duration := 0,
                           PORTB := MASK (PORTB s2) 3 1\<rparr>
                   else s2\<lparr>buzzer_state := BUZZER_OFF\<rparr>))
        else Some s1)"

definition TIMER1_COMPA_vect :: "mcu \<Rightarrow> mcu option" where
  "TIMER1_COMPA_vect s = buzzer_tick (timer_tick (servo_tick s))"

text \<open>
  \<open>buzzer_beep\<close>. The slot \<open>(index + length) % BUZZER_QUEUE_SIZE\<close> is computed in
  \<open>int\<close> (the operands are promoted), so the sum does not wrap.
\<close>

definition buzzer_beep :: "u8 \<Rightarrow> mcu \<Rightarrow> mcu" where
  "buzzer_beep len s =
     (if unat (bq_length s) \<noteq> BUZZER_QUEUE_SIZE then
        s\<lparr>bq_queue := (bq_queue s)
             [(unat (bq_index s) + unat (bq_length s)) mod BUZZER_QUEUE_SIZE := len],
          bq_length := bq_length s + 1\<rparr>
      else s)"

definition buzzer_queue_length :: "mcu \<Rightarrow> u8" where
  "buzzer_queue_length s = bq_length s"

definition set_status_led :: "u8 \<Rightarrow> mcu \<Rightarrow> mcu" where
  "set_status_led enabled s = s\<lparr>PORTB := MASK (PORTB s) 2 enabled\<rparr>"

definition set_pyro_state :: "u8 \<Rightarrow> mcu \<Rightarrow> mcu" where
  "set_pyro_state enabled s = s\<lparr>PORTA := MASK (PORTA s) 2 enabled\<rparr>"

text \<open>\<open>OCR1B = 921 + ((uint16_t)position) * 231 / 64\<close>, in 16-bit unsigned arithmetic.\<close>

definition set_servo_position :: "u8 \<Rightarrow> mcu \<Rightarrow> mcu" where
  "set_servo_position position s = s\<lparr>OCR1B := 921 + (ucast position * 231) div 64\<rparr>"

definition set_launch_asserted :: "u8 \<Rightarrow> mcu \<Rightarrow> mcu" where
  "set_launch_asserted enabled s = s\<lparr>PORTC := MASK (PORTC s) 2 enabled\<rparr>"

definition reset_timer :: "mcu \<Rightarrow> mcu" where
  "reset_timer s = s\<lparr>timer_20ms := 0\<rparr>"

definition get_timer :: "mcu \<Rightarrow> u16" where
  "get_timer s = timer_20ms s"

section \<open>lbp.cpp: the CRC\<close>

definition CHAR_ESCAPE :: u8 where "CHAR_ESCAPE = 0x50"
definition CHAR_START :: u8 where "CHAR_START = 0x55"
definition CHAR_STOP :: u8 where "CHAR_STOP = 0x5A"
definition LBP_BUFFER_SIZE :: nat where "LBP_BUFFER_SIZE = 32"

text \<open>The loop of \<open>crc8\<close>, from round \<open>i\<close> on.\<close>

function crc8_loop :: "nat \<Rightarrow> u8 \<Rightarrow> u8" where
  "crc8_loop i crc =
     (if i < 8 then
        crc8_loop (i + 1)
          (if crc AND 1 \<noteq> 0 then drop_bit 1 crc XOR 0x8C else drop_bit 1 crc)
      else crc)"
  by pat_completeness auto
termination
  by (relation "measure (\<lambda>(i, crc). 8 - i)") auto

definition crc8 :: "u8 \<Rightarrow> u8 \<Rightarrow> u8" where
  "crc8 data crc = crc8_loop 0 (crc XOR data)"

text \<open>
  The receive and the transmit interrupt both keep a running value
  \<open>crc = crc8(byte, crc)\<close> over the bytes of a frame: the cumulative CRC of a byte
  sequence from a start value.
\<close>

fun crc8_bytes :: "u8 list \<Rightarrow> u8 \<Rightarrow> u8" where
  "crc8_bytes [] crc = crc"
| "crc8_bytes (b # bs) crc = crc8_bytes bs (crc8 b crc)"

section \<open>lbp.h: packets\<close>

definition LBP_TYPE_MASK :: u8 where "LBP_TYPE_MASK = 0xC0"
definition LBP_SEQNUM_MASK :: u8 where "LBP_SEQNUM_MASK = 0xC0"
definition LBP_ADDRESS_MASK :: u8 where "LBP_ADDRESS_MASK = 0x3F"

definition LBP_SYNC :: u8 where "LBP_SYNC = 0x00"
definition LBP_REPLY :: u8 where "LBP_REPLY = 0x40"
definition LBP_ASYNC :: u8 where "LBP_ASYNC = 0x80"
definition LBP_BROADCAST :: u8 where "LBP_BROADCAST = 0xC0"

definition LBP_SOURCE_ADDRESS :: u8 where "LBP_SOURCE_ADDRESS = 0x3F"

definition LBP_NACK :: u8 where "LBP_NACK = 0x01"
definition LBP_IDENTIFY :: u8 where "LBP_IDENTIFY = 0x02"
definition LBP_IDENTIFY_ASYNC_REPLY :: u8 where "LBP_IDENTIFY_ASYNC_REPLY = 0x03"
definition LBP_EXTENDED_IDENTIFY :: u8 where "LBP_EXTENDED_IDENTIFY = 0x03"
definition LBP_NETWORK_DISCOVERY :: u8 where "LBP_NETWORK_DISCOVERY = 0x04"
definition LBP_STATUS_REQUEST :: u8 where "LBP_STATUS_REQUEST = 0x06"
definition LBP_STATUS_REQUEST_ASYNC_REPLY :: u8 where "LBP_STATUS_REQUEST_ASYNC_REPLY = 0x07"

definition LBP_IDENTIFY_CONTENT_0 :: u8 where "LBP_IDENTIFY_CONTENT_0 = 0xB0"
definition LBP_IDENTIFY_CONTENT_1 :: u8 where "LBP_IDENTIFY_CONTENT_1 = 0x01"
definition LBP_EXTENDED_IDENTIFY_CONTENT_0 :: u8 where "LBP_EXTENDED_IDENTIFY_CONTENT_0 = 0x0B"
definition LBP_EXTENDED_IDENTIFY_CONTENT_1 :: u8 where "LBP_EXTENDED_IDENTIFY_CONTENT_1 = 0x00"
definition LBP_EXTENDED_IDENTIFY_NAME :: string where
  "LBP_EXTENDED_IDENTIFY_NAME = ''SRP V0.0 ''"

text \<open>
  \<open>lbp_packet\<close> is a packed struct laid over a buffer: \<open>srcinfo\<close> is byte 0,
  \<open>destinfo\<close> byte 1, \<open>id\<close> byte 2 and \<open>data[i]\<close> byte \<open>3 + i\<close>.
\<close>

definition srcinfo :: "u8 list \<Rightarrow> u8" where "srcinfo p = p ! 0"
definition destinfo :: "u8 list \<Rightarrow> u8" where "destinfo p = p ! 1"
definition packet_id :: "u8 list \<Rightarrow> u8" where "packet_id p = p ! 2"
definition packet_data :: "u8 list \<Rightarrow> nat \<Rightarrow> u8" where "packet_data p i = p ! (3 + i)"

definition LBP_TYPE :: "u8 list \<Rightarrow> u8" where "LBP_TYPE p = srcinfo p AND LBP_TYPE_MASK"
definition LBP_SRC_ADDR :: "u8 list \<Rightarrow> u8" where "LBP_SRC_ADDR p = srcinfo p AND LBP_ADDRESS_MASK"
definition LBP_SEQNUM :: "u8 list \<Rightarrow> u8" where "LBP_SEQNUM p = destinfo p AND LBP_SEQNUM_MASK"

text \<open>Writes through \<open>packet\<close> (the receive buffer) and through \<open>reply\<close> (the transmit buffer).\<close>

definition set_packet_srcinfo :: "u8 \<Rightarrow> mcu \<Rightarrow> mcu" where
  "set_packet_srcinfo v s = s\<lparr>lbp_rx_buffer := (lbp_rx_buffer s)[0 := v]\<rparr>"

definition set_packet_id :: "u8 \<Rightarrow> mcu \<Rightarrow> mcu" where
  "set_packet_id v s = s\<lparr>lbp_rx_buffer := (lbp_rx_buffer s)[2 := v]\<rparr>"

definition set_reply_srcinfo :: "u8 \<Rightarrow> mcu \<Rightarrow> mcu" where
  "set_reply_srcinfo v s = s\<lparr>lbp_tx_buffer := (lbp_tx_buffer s)[0 := v]\<rparr>"

definition set_reply_destinfo :: "u8 \<Rightarrow> mcu \<Rightarrow> mcu" where
  "set_reply_destinfo v s = s\<lparr>lbp_tx_buffer := (lbp_tx_buffer s)[1 := v]\<rparr>"

definition set_reply_id :: "u8 \<Rightarrow> mcu \<Rightarrow> mcu" where
  "set_reply_id v s = s\<lparr>lbp_tx_buffer := (lbp_tx_buffer s)[2 := v]\<rparr>"

definition set_reply_data :: "nat \<Rightarrow> u8 \<Rightarrow> mcu \<Rightarrow> mcu" where
  "set_reply_data i v s = s\<lparr>lbp_tx_buffer := (lbp_tx_buffer s)[3 + i := v]\<rparr>"

section \<open>lbp.cpp: the driver interface\<close>

text \<open>\<open>lbp_get_tx_buffer\<close>: the state, and whether the buffer was handed out (not \<open>NULL\<close>).\<close>

definition lbp_get_tx_buffer :: "mcu \<Rightarrow> mcu \<times> bool" where
  "lbp_get_tx_buffer s =
     (if tx_link_state s = STATE_IDLE
      then (set_reply_srcinfo LBP_SOURCE_ADDRESS (s\<lparr>tx_link_state := STATE_FILLING\<rparr>), True)
      else (s, False))"

definition lbp_send_message :: "u8 \<Rightarrow> mcu \<Rightarrow> mcu" where
  "lbp_send_message data_length s =
     s\<lparr>lbp_tx_buffer_length := data_length + 3,
       lbp_tx_buffer_index := 0,
       tx_crc := 0,
       UDR0_sent := UDR0_sent s @ [CHAR_START],
       tx_link_state := STATE_FRAME\<rparr>"

definition lbp_discard_message :: "mcu \<Rightarrow> mcu" where
  "lbp_discard_message s = s\<lparr>tx_link_state := STATE_IDLE\<rparr>"

section \<open>state_machine.cpp: the state callbacks of the protocol\<close>

definition lbp_state_error :: "mcu \<Rightarrow> u8" where
  "lbp_state_error s = (if flight_state s = ERROR then 1 else 0)"

definition lbp_state_armed :: "mcu \<Rightarrow> u8" where
  "lbp_state_armed s =
     (if state_value ARMED \<le> state_value (flight_state s) then 1 else 0)"

section \<open>main.cpp: the message handler\<close>

definition get_u16 :: "u16 \<Rightarrow> mcu \<Rightarrow> mcu" where
  "get_u16 temp s =
     lbp_send_message 2
       (set_reply_data 0 (ucast temp) (set_reply_data 1 (ucast (drop_bit 8 temp)) s))"

definition get_u8 :: "u8 \<Rightarrow> mcu \<Rightarrow> mcu" where
  "get_u8 v s = lbp_send_message 1 (set_reply_data 0 v s)"

text \<open>
  \<open>lbp_handler\<close>. \<open>packet\<close> is the receive buffer and \<open>reply\<close> the transmit buffer.
  A setter with a wrong \<open>data_length\<close> leaves the switch by \<open>break\<close> and ends, like
  an unknown id, in the Nack at the end of the function.
\<close>

definition lbp_handler :: "mcu \<Rightarrow> u8 \<Rightarrow> mcu option" where
  "lbp_handler s0 data_length =
     (let pid = packet_id (lbp_rx_buffer s0);
          d0 = packet_data (lbp_rx_buffer s0) 0;
          d1 = packet_data (lbp_rx_buffer s0) 1;
          temp = push_bit 8 (ucast d1) OR ucast d0;
          s = set_reply_id pid s0;
          echo1 = (\<lambda>t. lbp_send_message 1 (set_reply_data 0 d0 t));
          echo2 = (\<lambda>t. lbp_send_message 2 (set_reply_data 1 d1 (set_reply_data 0 d0 t)));
          nack = lbp_send_message 0 (set_reply_id LBP_NACK s)
      in
      if 0x20 \<le> pid then
        (if pid = 0x20 then
           Some (if data_length \<noteq> 2 then nack else echo2 (s\<lparr>min_deploy_time := temp\<rparr>))
         else if pid = 0x21 then
           Some (if data_length \<noteq> 2 then nack else echo2 (s\<lparr>max_deploy_time := temp\<rparr>))
         else if pid = 0x24 then
           Some (if data_length \<noteq> 1 then nack else echo1 (s\<lparr>battery_empty_limit := d0\<rparr>))
         else if pid = 0x25 then
           Some (if data_length \<noteq> 1 then nack else echo1 (s\<lparr>use_servo := d0\<rparr>))
         else if pid = 0x26 then
           Some (if data_length \<noteq> 1 then nack else echo1 (s\<lparr>servo_closed_position := d0\<rparr>))
         else if pid = 0x27 then
           Some (if data_length \<noteq> 1 then nack else echo1 (s\<lparr>servo_open_position := d0\<rparr>))
         else if pid = 0x28 then
           Some (if data_length \<noteq> 1 then nack else echo1 (set_servo_position d0 s))
         else if pid = 0x29 then
           Some (if data_length \<noteq> 1 then nack else echo1 (s\<lparr>lbp_address := d0\<rparr>))
         else Some nack)
      else if data_length = 0 then
        (if pid = 0x10 then Some (get_u16 (min_deploy_time s) s)
         else if pid = 0x11 then Some (get_u16 (max_deploy_time s) s)
         else if pid = 0x12 then Some (get_u16 (last_logged_deploy_time s) s)
         else if pid = 0x13 then
           (case get_battery_value s of None \<Rightarrow> None | Some b \<Rightarrow> Some (get_u8 b s))
         else if pid = 0x14 then Some (get_u8 (battery_empty_limit s) s)
         else if pid = 0x15 then Some (get_u8 (use_servo s) s)
         else if pid = 0x16 then Some (get_u8 (servo_closed_position s) s)
         else if pid = 0x17 then Some (get_u8 (servo_open_position s) s)
         else if pid = 0x19 then Some (get_u8 (lbp_address s) s)
         else Some nack)
      else Some nack)"

section \<open>lbp.cpp: the packet dispatcher\<close>

text \<open>
  The string literal is followed by its terminating zero byte: \<open>name_char i\<close> is
  \<open>LBP_EXTENDED_IDENTIFY_NAME[i]\<close>. \<open>name_loop\<close> is the copy loop of page 1 from
  the value \<open>temp\<close> on; it returns the final \<open>temp\<close> and the reply buffer.
\<close>

definition name_char :: "nat \<Rightarrow> u8" where
  "name_char i =
     (if i < length LBP_EXTENDED_IDENTIFY_NAME
      then of_char (LBP_EXTENDED_IDENTIFY_NAME ! i) else 0)"

function name_loop :: "nat \<Rightarrow> u8 list \<Rightarrow> nat \<times> u8 list" where
  "name_loop temp reply =
     (if name_char temp \<noteq> 0
      then name_loop (temp + 1) (reply[3 + temp := name_char temp])
      else (temp, reply))"
  by pat_completeness auto
termination
  by (relation "measure (\<lambda>(temp, reply). length LBP_EXTENDED_IDENTIFY_NAME - temp)")
     (auto simp: name_char_def split: if_splits)

declare name_loop.simps [simp del]

text \<open>The \<open>switch\<close> over the reserved ids (\<open>packet->id < 0x10\<close>) of \<open>parse_packet\<close>.\<close>

definition parse_reserved :: "mcu \<Rightarrow> u8 \<Rightarrow> mcu" where
  "parse_reserved s data_length =
     (let pid = packet_id (lbp_rx_buffer s); ty = LBP_TYPE (lbp_rx_buffer s) in
      if pid = LBP_NACK then lbp_discard_message s
      else if pid = LBP_IDENTIFY then
        (let s1 = set_packet_srcinfo
                    (srcinfo (lbp_rx_buffer s) OR (if ty = LBP_SYNC then LBP_REPLY else LBP_ASYNC)) s;
             s2 = set_packet_id
                    (if LBP_TYPE (lbp_rx_buffer s1) = LBP_ASYNC
                     then LBP_IDENTIFY_ASYNC_REPLY else LBP_IDENTIFY) s1
         in lbp_send_message 2
              (set_reply_data 1 LBP_IDENTIFY_CONTENT_1
                (set_reply_data 0 LBP_IDENTIFY_CONTENT_0 s2)))
      else if pid = LBP_EXTENDED_IDENTIFY then
        (if ty \<noteq> LBP_SYNC then lbp_discard_message s
         else
           let s1 = set_packet_srcinfo (srcinfo (lbp_rx_buffer s) OR LBP_REPLY) s;
               temp = (if data_length < 1 then 0 else packet_data (lbp_rx_buffer s1) 0)
           in
           if 0x10 \<le> temp then lbp_send_message 0 (set_packet_id LBP_NACK s1)
           else
             let s2 = set_packet_id LBP_EXTENDED_IDENTIFY s1 in
             if temp = 0 then
               lbp_send_message 2
                 (set_reply_data 1 LBP_EXTENDED_IDENTIFY_CONTENT_1
                   (set_reply_data 0 LBP_EXTENDED_IDENTIFY_CONTENT_0 s2))
             else if temp = 1 then
               (case name_loop 0 (lbp_tx_buffer s2) of
                  (temp', reply) \<Rightarrow>
                    lbp_send_message (of_nat temp' - 1) (s2\<lparr>lbp_tx_buffer := reply\<rparr>))
             else lbp_send_message 0 s2)
      else if pid = LBP_NETWORK_DISCOVERY then
        (if ty = LBP_SYNC then
           lbp_send_message 0
             (set_packet_id LBP_NACK
               (set_packet_srcinfo (srcinfo (lbp_rx_buffer s) OR LBP_REPLY) s))
         else lbp_discard_message s)
      else if pid = LBP_STATUS_REQUEST then
        (let s1 = set_packet_srcinfo
                    (srcinfo (lbp_rx_buffer s) OR (if ty = LBP_SYNC then LBP_REPLY else LBP_ASYNC)) s;
             s2 = set_packet_id
                    (if LBP_TYPE (lbp_rx_buffer s1) = LBP_ASYNC
                     then LBP_STATUS_REQUEST_ASYNC_REPLY else LBP_STATUS_REQUEST) s1
         in lbp_send_message 1
              (set_reply_data 0
                (push_bit 4 1 OR (if lbp_state_error s2 \<noteq> 0 then push_bit 1 2 else 0)
                   OR (if lbp_state_armed s2 \<noteq> 0 then 1 else 0)) s2))
      else
        (if ty = LBP_SYNC then
           lbp_send_message 0
             (set_packet_id LBP_NACK
               (set_packet_srcinfo (srcinfo (lbp_rx_buffer s) OR LBP_REPLY) s))
         else lbp_discard_message s))"

definition parse_packet :: "mcu \<Rightarrow> u8 \<Rightarrow> mcu option" where
  "parse_packet s_in data_length =
     (case lbp_get_tx_buffer s_in of
        (s0, False) \<Rightarrow> Some s0
      | (s0, True) \<Rightarrow>
          let s = set_reply_destinfo
                    (LBP_SRC_ADDR (lbp_rx_buffer s0) OR LBP_SEQNUM (lbp_rx_buffer s0)) s0
          in
          if LBP_TYPE (lbp_rx_buffer s) = LBP_REPLY then Some (lbp_discard_message s)
          else if packet_id (lbp_rx_buffer s) < 0x10 then Some (parse_reserved s data_length)
          else if LBP_TYPE (lbp_rx_buffer s) = LBP_SYNC then
            lbp_handler
              (set_reply_srcinfo (srcinfo (lbp_tx_buffer s) OR LBP_REPLY) s) data_length
          else Some (lbp_discard_message s))"

section \<open>lbp.cpp: the interrupt handlers\<close>

text \<open>
  The end of the receive interrupt (``this is a valid data bit, add it''): the byte is
  stored at \<open>lbp_rx_buffer_length\<close> and folded into the CRC, unless the buffer is full.
  The second component of the result is the call of \<open>parse_packet\<close> the interrupt
  makes: none here.
\<close>

definition rx_add_byte :: "mcu \<Rightarrow> u8 \<Rightarrow> (mcu \<times> u8 option) option" where
  "rx_add_byte s byte =
     (if unat (lbp_rx_buffer_length s) = LBP_BUFFER_SIZE then
        Some (s\<lparr>rx_link_state := STATE_IDLE\<rparr>, None)
      else if length (lbp_rx_buffer s) \<le> unat (lbp_rx_buffer_length s) then None
      else
        Some (s\<lparr>lbp_rx_buffer := (lbp_rx_buffer s)[unat (lbp_rx_buffer_length s) := byte],
                 lbp_rx_buffer_length := lbp_rx_buffer_length s + 1,
                 rx_crc := crc8 byte (rx_crc s)\<rparr>, None))"

text \<open>
  \<open>ISR(USART0_RX_vect)\<close> up to its call of \<open>parse_packet\<close>, for the received byte
  \<open>byte\<close> (the value read from \<open>UDR0\<close>). The result is the state the interrupt
  leaves, or has when it calls \<open>parse_packet\<close>, and the \<open>data_length\<close> of that call
  when the interrupt makes it.
\<close>

definition USART0_RX_link :: "mcu \<Rightarrow> u8 \<Rightarrow> (mcu \<times> u8 option) option" where
  "USART0_RX_link s byte =
     (if rx_link_state s = STATE_ESCAPING then
        rx_add_byte (s\<lparr>rx_link_state := STATE_FRAME\<rparr>) (NOT byte)
      else if rx_link_state s = STATE_FRAME then
        (if byte = CHAR_ESCAPE then Some (s\<lparr>rx_link_state := STATE_ESCAPING\<rparr>, None)
         else if byte = CHAR_START then Some (s\<lparr>rx_link_state := STATE_IDLE\<rparr>, None)
         else if byte = CHAR_STOP then
           Some (s\<lparr>rx_link_state := STATE_IDLE\<rparr>,
                 if rx_crc s = 0 \<and> 4 \<le> lbp_rx_buffer_length s
                 then Some (lbp_rx_buffer_length s - 4) else None)
         else rx_add_byte s byte)
      else if byte = CHAR_START then
        Some (s\<lparr>lbp_rx_buffer_length := 0, rx_link_state := STATE_FRAME, rx_crc := 0\<rparr>, None)
      else rx_add_byte s byte)"

text \<open>The whole receive interrupt: the call of \<open>parse_packet\<close> is its last action.\<close>

definition USART0_RX_vect :: "mcu \<Rightarrow> u8 \<Rightarrow> mcu option" where
  "USART0_RX_vect s byte =
     (case USART0_RX_link s byte of
        None \<Rightarrow> None
      | Some (s', None) \<Rightarrow> Some s'
      | Some (s', Some data_length) \<Rightarrow> parse_packet s' data_length)"

definition must_escape :: "u8 \<Rightarrow> bool" where
  "must_escape byte = (byte = CHAR_STOP \<or> byte = CHAR_START \<or> byte = CHAR_ESCAPE)"

definition send_byte :: "u8 \<Rightarrow> mcu \<Rightarrow> mcu" where
  "send_byte byte s = s\<lparr>UDR0_sent := UDR0_sent s @ [byte]\<rparr>"

text \<open>
  \<open>ISR(USART0_TX_vect)\<close>. The escaped data byte is read at
  \<open>lbp_tx_buffer_index - 1\<close>, the data byte at \<open>lbp_tx_buffer_index\<close>.
\<close>

definition USART0_TX_vect :: "mcu \<Rightarrow> mcu option" where
  "USART0_TX_vect s =
     (if tx_link_state s = STATE_IDLE \<or> tx_link_state s = STATE_FILLING then Some s
      else if tx_link_state s = STATE_ENDING then
        Some (send_byte CHAR_STOP s\<lparr>tx_link_state := STATE_IDLE\<rparr>)
      else if lbp_tx_buffer_index s = lbp_tx_buffer_length s then
        (if tx_link_state s = STATE_ESCAPING then
           Some (send_byte (NOT (tx_crc s)) s\<lparr>tx_link_state := STATE_ENDING\<rparr>)
         else if must_escape (tx_crc s) then
           Some (send_byte CHAR_ESCAPE s\<lparr>tx_link_state := STATE_ESCAPING\<rparr>)
         else
           Some (send_byte (tx_crc s) s\<lparr>tx_link_state := STATE_ENDING\<rparr>))
      else if tx_link_state s = STATE_ESCAPING then
        (if lbp_tx_buffer_index s = 0
            \<or> length (lbp_tx_buffer s) \<le> unat (lbp_tx_buffer_index s) - 1 then None
         else
           Some (send_byte (NOT (lbp_tx_buffer s ! (unat (lbp_tx_buffer_index s) - 1))) s
                   \<lparr>tx_link_state := STATE_FRAME\<rparr>))
      else
        (if length (lbp_tx_buffer s) \<le> unat (lbp_tx_buffer_index s) then None
         else
           let byte = lbp_tx_buffer s ! unat (lbp_tx_buffer_index s);
               s1 = s\<lparr>lbp_tx_buffer_index := lbp_tx_buffer_index s + 1,
                      tx_crc := crc8 byte (tx_crc s)\<rparr>
           in
           if must_escape byte then
             Some (send_byte CHAR_ESCAPE s1\<lparr>tx_link_state := STATE_ESCAPING\<rparr>)
           else Some (send_byte byte s1)))"

text \<open>
  The UART raises the transmit interrupt once for every byte written to \<open>UDR0\<close>, so
  after \<open>lbp_send_message\<close> the handler runs again and again until it writes no byte:
  that is in the states Idle and Filling. \<open>tx_distance\<close> bounds the number of
  interrupts that are still to come.
\<close>

definition tx_distance :: "mcu \<Rightarrow> nat" where
  "tx_distance s =
     (let d = unat (lbp_tx_buffer_length s - lbp_tx_buffer_index s) in
      case tx_link_state s of
        STATE_IDLE \<Rightarrow> 0
      | STATE_FILLING \<Rightarrow> 0
      | STATE_ENDING \<Rightarrow> 1
      | STATE_FRAME \<Rightarrow> 2 * d + 3
      | STATE_ESCAPING \<Rightarrow> (if d = 0 then 2 else 2 * d + 4))"

lemma unat_length_minus_next:
  fixes len idx :: u8
  assumes "idx \<noteq> len"
  shows "unat (len - (idx + 1)) = unat (len - idx) - 1"
proof -
  have "len - idx \<noteq> 0" using assms by simp
  then have "unat (len - idx - 1) = unat (len - idx) - 1"
    by (rule unat_minus_one)
  then show ?thesis by (simp add: diff_diff_eq add.commute)
qed

lemma unat_length_minus_pos:
  fixes len idx :: u8
  assumes "idx \<noteq> len"
  shows "0 < unat (len - idx)"
  using assms by (simp add: unat_gt_0)

lemma tx_distance_decreases:
  assumes "tx_link_state s \<noteq> STATE_IDLE" and "tx_link_state s \<noteq> STATE_FILLING"
    and "USART0_TX_vect s = Some s'"
  shows "tx_distance s' < tx_distance s"
proof (cases "lbp_tx_buffer_index s = lbp_tx_buffer_length s")
  case True
  with assms show ?thesis
    by (cases "tx_link_state s")
       (auto simp: USART0_TX_vect_def tx_distance_def send_byte_def split: if_splits)
next
  case False
  note pos = unat_length_minus_pos [OF False] and nxt = unat_length_minus_next [OF False]
  from assms False pos nxt show ?thesis
    by (cases "tx_link_state s")
       (auto simp: USART0_TX_vect_def tx_distance_def send_byte_def Let_def split: if_splits)
qed

function tx_interrupts :: "mcu \<Rightarrow> mcu option" where
  "tx_interrupts s =
     (if tx_link_state s = STATE_IDLE \<or> tx_link_state s = STATE_FILLING then Some s
      else case USART0_TX_vect s of None \<Rightarrow> None | Some s' \<Rightarrow> tx_interrupts s')"
  by pat_completeness auto
termination
  by (relation "measure tx_distance") (auto intro: tx_distance_decreases)

section \<open>state_machine.cpp: the flight state machine\<close>

text \<open>
  The entry beep of the states Error, Launched and Deployed:
  \<open>if (!buzzer_queue_length()) buzzer_beep(len)\<close>.
\<close>

definition beep_if_silent :: "u8 \<Rightarrow> mcu \<Rightarrow> mcu" where
  "beep_if_silent len s = (if buzzer_queue_length s = 0 then buzzer_beep len s else s)"

definition two_short_beeps :: "mcu \<Rightarrow> mcu" where
  "two_short_beeps s = buzzer_beep BEEP_SHORT (buzzer_beep BEEP_SHORT s)"

text \<open>
  \<open>update_state_machine\<close>, one poll. The conditions are evaluated left to right with
  the short-circuit of \<open>&&\<close> and \<open>||\<close>, so the battery is read only where the
  source reads it.
\<close>

definition update_state_machine :: "mcu \<Rightarrow> mcu option" where
  "update_state_machine s =
     (case flight_state s of
        ERROR \<Rightarrow>
          (let s1 = beep_if_silent BEEP_LONG s in
           if is_armed s1 \<noteq> 0 then Some s1
           else case get_battery_value s1 of
                  None \<Rightarrow> None
                | Some battery \<Rightarrow>
                    if battery_empty_limit s1 < battery
                       \<and> (use_servo s1 \<noteq> 0 \<or> is_squib_connected s1 \<noteq> 0)
                    then Some ((set_status_led ON (two_short_beeps s1))\<lparr>flight_state := IDLE\<rparr>)
                    else Some s1)
      | SYSTEMS_CHECK \<Rightarrow>
          (let s1 = (if use_servo s \<noteq> 0
                     then set_servo_position (servo_closed_position s) s else s) in
           case get_battery_value s1 of
             None \<Rightarrow> None
           | Some battery \<Rightarrow>
               if battery \<le> battery_empty_limit s1
                  \<or> (use_servo s1 = 0 \<and> is_squib_connected s1 = 0)
               then Some (s1\<lparr>flight_state := ERROR\<rparr>)
               else Some ((set_status_led ON (two_short_beeps s1))\<lparr>flight_state := IDLE\<rparr>))
      | IDLE \<Rightarrow>
          (if is_armed s \<noteq> 0 then Some (s\<lparr>flight_state := ERROR\<rparr>)
           else if is_breakwire_connected s \<noteq> 0 then
             Some ((set_status_led OFF (two_short_beeps s))\<lparr>flight_state := PREPARATION\<rparr>)
           else Some s)
      | PREPARATION \<Rightarrow>
          (if is_breakwire_connected s = 0 then
             Some ((set_status_led ON (buzzer_beep BEEP_LONG s))\<lparr>flight_state := IDLE\<rparr>)
           else if is_armed s \<noteq> 0 then
             (if use_servo s = 0 \<and> is_squib_connected s = 0
              then Some (s\<lparr>flight_state := ERROR\<rparr>)
              else Some ((set_status_led ON (two_short_beeps s))\<lparr>flight_state := ARMED\<rparr>))
           else Some s)
      | ARMED \<Rightarrow>
          (if is_armed s = 0 then
             Some ((set_status_led OFF (buzzer_beep BEEP_LONG s))\<lparr>flight_state := PREPARATION\<rparr>)
           else if is_breakwire_connected s = 0 then
             Some ((set_launch_asserted ON (reset_timer s))\<lparr>flight_state := LAUNCHED\<rparr>)
           else Some s)
      | LAUNCHED \<Rightarrow>
          (let s1 = beep_if_silent BEEP_SHORT s in
           if max_deploy_time s1 \<le> get_timer s1
              \<or> (min_deploy_time s1 \<le> get_timer s1 \<and> is_vote_asserted s1 \<noteq> 0)
           then
             let s2 = (if use_servo s1 \<noteq> 0
                       then set_servo_position (servo_open_position s1) s1
                       else set_pyro_state ON s1)
             in Some (s2\<lparr>last_logged_deploy_time := get_timer s2, flight_state := DEPLOYED\<rparr>)
           else Some s1)
      | DEPLOYED \<Rightarrow> Some (beep_if_silent BEEP_LONG s))"

section \<open>The state after reset\<close>

text \<open>
  The variables with static storage start at zero, \<open>flight_state\<close> at
  \<open>SYSTEMS_CHECK\<close>, the link states at \<open>STATE_IDLE\<close> and the buzzer at
  \<open>BUZZER_OFF\<close>; the EEPROM variables have the initial values of eeprom.cpp;
  \<open>init_actuators\<close> clears the output pins and \<open>OCR1B\<close>. The input registers are
  given: \<open>pina\<close>, \<open>pinb\<close>, \<open>pinc\<close> and the ADC registers.
\<close>

definition reset_state :: "u8 \<Rightarrow> u8 \<Rightarrow> u8 \<Rightarrow> u8 \<Rightarrow> u8 \<Rightarrow> mcu" where
  "reset_state pina pinb pinc adcsra adch =
     \<lparr>flight_state = SYSTEMS_CHECK,
      bq_index = 0, bq_length = 0, bq_queue = replicate 8 0,
      buzzer_state = BUZZER_OFF, current_beep_duration = 0, timer_20ms = 0,
      min_deploy_time = 500, max_deploy_time = 700, last_logged_deploy_time = 0,
      battery_empty_limit = 166, use_servo = 1,
      servo_closed_position = 0, servo_open_position = 255, lbp_address = 0,
      PORTA = 0, PORTB = 0, PORTC = 0, PINA = pina, PINB = pinb, PINC = pinc,
      OCR1B = 0, ADCSRA = adcsra, ADCH = adch,
      rx_link_state = STATE_IDLE, rx_crc = 0, tx_link_state = STATE_IDLE, tx_crc = 0,
      lbp_rx_buffer = replicate 32 0, lbp_rx_buffer_length = 0,
      lbp_tx_buffer = replicate 32 0, lbp_tx_buffer_length = 0, lbp_tx_buffer_index = 0,
      UDR0_sent = []\<rparr>"

section \<open>The wire format\<close>

text \<open>
  Byte stuffing as the protocol describes it: a byte equal to START, STOP or ESCAPE
  goes on the wire as ESCAPE followed by its complement. A frame is START, the stuffed
  data and CRC, STOP.
\<close>

fun stuff :: "u8 list \<Rightarrow> u8 list" where
  "stuff [] = []"
| "stuff (b # bs) = (if must_escape b then [CHAR_ESCAPE, NOT b] else [b]) @ stuff bs"

definition frame_bytes :: "u8 list \<Rightarrow> u8 list" where
  "frame_bytes bs = CHAR_START # stuff (bs @ [crc8_bytes bs 0]) @ [CHAR_STOP]"

section \<open>Sequences of interrupts and calls\<close>

text \<open>
  The receive interrupt, once for every byte of a stream. \<open>USART0_RX_stream\<close> follows
  the link layer and lists the calls of \<open>parse_packet\<close> the interrupts make: for each
  call the packet it is given (the three header bytes and \<open>data_length\<close> bytes of
  data, as they stand in the receive buffer at the call) and \<open>data_length\<close>.
  \<open>USART0_RX_bytes\<close> runs the whole interrupt, dispatcher included.
\<close>

fun USART0_RX_stream :: "mcu \<Rightarrow> u8 list \<Rightarrow> (mcu \<times> (u8 list \<times> u8) list) option" where
  "USART0_RX_stream s [] = Some (s, [])"
| "USART0_RX_stream s (b # bs) =
     (case USART0_RX_link s b of
        None \<Rightarrow> None
      | Some (s', call) \<Rightarrow>
          (case USART0_RX_stream s' bs of
             None \<Rightarrow> None
           | Some (s'', calls) \<Rightarrow>
               Some (s'', (case call of
                             None \<Rightarrow> []
                           | Some n \<Rightarrow> [(take (3 + unat n) (lbp_rx_buffer s'), n)]) @ calls)))"

fun USART0_RX_bytes :: "mcu \<Rightarrow> u8 list \<Rightarrow> mcu option" where
  "USART0_RX_bytes s [] = Some s"
| "USART0_RX_bytes s (b # bs) =
     (case USART0_RX_vect s b of None \<Rightarrow> None | Some s' \<Rightarrow> USART0_RX_bytes s' bs)"

text \<open>
  The sender \<open>s\<close> calls \<open>lbp_send_message data_length\<close> and its transmit interrupts
  run to the end; the bytes it wrote to \<open>UDR0\<close> are the stream the receiver \<open>r\<close>
  gets. The result is the list of the calls of \<open>parse_packet\<close> in the receiver.
\<close>

definition loopback :: "mcu \<Rightarrow> u8 \<Rightarrow> mcu \<Rightarrow> (u8 list \<times> u8) list option" where
  "loopback s data_length r =
     (case tx_interrupts (lbp_send_message data_length s) of
        None \<Rightarrow> None
      | Some s' \<Rightarrow>
          map_option snd (USART0_RX_stream r (drop (length (UDR0_sent s)) (UDR0_sent s'))))"

text \<open>
  The buzzer queue has one producer, \<open>buzzer_beep\<close> (an atomic section), and one
  consumer, \<open>buzzer_tick\<close> (in the timer interrupt), so a run is a sequence of the two.
  \<open>buzzer_run\<close> returns the final state, the durations that entered the queue (the
  calls of \<open>buzzer_beep\<close> that changed the count) and the entries that left it (for
  each tick that changed the count, the entry at \<open>index\<close> before the tick), both in
  the order of time. \<open>pending\<close> is the content of the queue, oldest entry first.
\<close>

datatype buzzer_call = Beep u8 | Tick

definition pending :: "mcu \<Rightarrow> u8 list" where
  "pending s =
     map (\<lambda>k. bq_queue s ! ((unat (bq_index s) + k) mod BUZZER_QUEUE_SIZE))
       [0..<unat (bq_length s)]"

fun buzzer_run :: "mcu \<Rightarrow> buzzer_call list \<Rightarrow> (mcu \<times> u8 list \<times> u8 list) option" where
  "buzzer_run s [] = Some (s, [], [])"
| "buzzer_run s (Beep len # cs) =
     (let s' = buzzer_beep len s;
          new = (if buzzer_queue_length s' = buzzer_queue_length s then [] else [len])
      in case buzzer_run s' cs of
           None \<Rightarrow> None
         | Some (t, enq, deq) \<Rightarrow> Some (t, new @ enq, deq))"
| "buzzer_run s (Tick # cs) =
     (case buzzer_tick s of
        None \<Rightarrow> None
      | Some s' \<Rightarrow>
          let gone = (if buzzer_queue_length s' = buzzer_queue_length s then []
                      else [bq_queue s ! unat (bq_index s)])
          in case buzzer_run s' cs of
               None \<Rightarrow> None
             | Some (t, enq, deq) \<Rightarrow> Some (t, enq, gone @ deq))"

text \<open>The invariant of the buzzer variables.\<close>

definition buzzer_inv :: "mcu \<Rightarrow> bool" where
  "buzzer_inv s \<longleftrightarrow>
     unat (bq_index s) < BUZZER_QUEUE_SIZE \<and> unat (bq_length s) \<le> BUZZER_QUEUE_SIZE
     \<and> length (bq_queue s) = BUZZER_QUEUE_SIZE
     \<and> (buzzer_state s = BUZZER_OFF \<or> bq_length s \<noteq> 0)"

section \<open>Concrete states\<close>

text \<open>
  The flight in the state Launched at tick 700, the default \<open>max_deploy_time\<close>, with
  the vote input not asserted (the pin reads high).
\<close>

definition launched_at_max_time :: mcu where
  "launched_at_max_time =
     (reset_state 0 0 0x02 0 0)\<lparr>flight_state := LAUNCHED, timer_20ms := 700\<rparr>"

text \<open>
  The state Armed with the breakwire pin low (disconnected), once with the arm switch
  still in the armed position (pin low) and once with the switch back in the safe
  position (pin high).
\<close>

definition armed_on_the_pad :: mcu where
  "armed_on_the_pad =
     (reset_state 0 0 0 0 0)\<lparr>flight_state := ARMED, timer_20ms := 7\<rparr>"

definition disarmed_on_the_pad :: mcu where
  "disarmed_on_the_pad =
     (reset_state 0x10 0 0 0 0)\<lparr>flight_state := ARMED, timer_20ms := 7\<rparr>"

text \<open>
  Senders that have filled the transmit buffer: a header and four data bytes, three of
  them reserved bytes; a header and 29 data bytes; a header and one data byte that is
  a reserved byte.
\<close>

definition sender_4 :: mcu where
  "sender_4 = (reset_state 0 0 0 0 0)
     \<lparr>lbp_tx_buffer := [0x3F, 0x00, 0x10, 0x55, 0x5A, 0x50, 0x01] @ replicate 25 0x00,
      tx_link_state := STATE_FILLING\<rparr>"

definition sender_29 :: mcu where
  "sender_29 = (reset_state 0 0 0 0 0)
     \<lparr>lbp_tx_buffer := [0x3F, 0x00, 0x10] @ replicate 29 0x00,
      tx_link_state := STATE_FILLING\<rparr>"

definition sender_last_escaped :: mcu where
  "sender_last_escaped = (reset_state 0 0 0 0 0)
     \<lparr>lbp_tx_buffer := [0x3F, 0x00, 0x10, 0x55] @ replicate 28 0x00,
      tx_link_state := STATE_FILLING\<rparr>"

text \<open>
  Receivers inside a frame: after two data bytes, and with a full buffer.
\<close>

definition short_frame :: mcu where
  "short_frame = (reset_state 0 0 0 0 0)
     \<lparr>rx_link_state := STATE_FRAME, lbp_rx_buffer_length := 2, rx_crc := 0\<rparr>"

definition full_frame :: mcu where
  "full_frame = (reset_state 0 0 0 0 0)
     \<lparr>rx_link_state := STATE_FRAME, lbp_rx_buffer_length := 32, rx_crc := 0\<rparr>"

text \<open>
  A device that has received a request and is about to call \<open>parse_packet\<close>: a
  synchronous extended-identify request for page 1 from address 5 with sequence bits
  01, and a synchronous status request while the flight state is Deployed.
\<close>

definition page_1_request :: mcu where
  "page_1_request = (reset_state 0 0 0 0 0)
     \<lparr>lbp_rx_buffer := [0x05, 0x40, 0x03, 0x01] @ replicate 28 0x00,
      lbp_rx_buffer_length := 5\<rparr>"

definition status_request_deployed :: mcu where
  "status_request_deployed = (reset_state 0 0 0 0 0)
     \<lparr>flight_state := DEPLOYED,
      lbp_rx_buffer := [0x05, 0x40, 0x06] @ replicate 29 0x00,
      lbp_rx_buffer_length := 4\<rparr>"

text \<open>A buzzer queue that holds eight entries.\<close>

definition full_queue :: mcu where
  "full_queue = (reset_state 0 0 0 0 0)\<lparr>bq_length := 8\<rparr>"

section \<open>The CRC\<close>

lemma crc8_loop_zero: "crc8_loop i 0 = 0"
  by (induction i "0 :: u8" rule: crc8_loop.induct) simp

lemma crc8_self: "crc8 c c = 0"
  by (simp add: crc8_def crc8_loop_zero)

lemma crc8_bytes_append: "crc8_bytes (xs @ ys) c = crc8_bytes ys (crc8_bytes xs c)"
  by (induction xs arbitrary: c) simp_all

lemma crc8_bytes_with_crc: "crc8_bytes (bs @ [crc8_bytes bs 0]) 0 = 0"
  by (simp add: crc8_bytes_append crc8_self)

text \<open>
  Claim C4. For every byte sequence \<open>bs\<close>: when \<open>c\<close> is the cumulative CRC of \<open>bs\<close>
  from the start value 0, the cumulative CRC of \<open>bs\<close> followed by the byte \<open>c\<close> is 0.
\<close>

theorem crc_of_data_and_crc_is_zero:
  "crc8_bytes (bs @ [crc8_bytes bs 0]) 0 = 0"
  by (simp add: crc8_bytes_append crc8_self)

theorem crc_of_data_and_crc_is_zero_witness:
  "crc8_bytes [0x3F, 0x00, 0x01] 0 = 0xDF \<and> crc8_bytes [0x3F, 0x00, 0x01, 0xDF] 0 = 0"
proof -
  have c: "crc8_bytes [0x3F, 0x00, 0x01] 0 = 0xDF" by code_simp
  from crc_of_data_and_crc_is_zero [of "[0x3F, 0x00, 0x01]"] c show ?thesis by simp
qed

section \<open>The flight state machine\<close>

lemma bit_MASK_same: "bit (MASK r n v) n \<longleftrightarrow> n < 8 \<and> bit v 0"
  by (auto simp: MASK_def bit_simps)

lemma bit_MASK_ON: "n < 8 \<Longrightarrow> bit (MASK r n ON) n"
  by (simp add: bit_MASK_same ON_def)

text \<open>
  Claim C1. A poll in the state Launched that finds the timer at or above
  \<open>max_deploy_time\<close> returns, and leaves the machine in the state Deployed with the
  timer value written to \<open>last_logged_deploy_time\<close>; in servo mode the servo compare
  register holds the value of the open position, in pyro mode the pyro pin (port A,
  bit 2) is high. Nothing is assumed about the vote input.
\<close>

theorem launched_max_time_deploys:
  assumes "flight_state s = LAUNCHED" and "max_deploy_time s \<le> get_timer s"
  shows "\<exists>s'. update_state_machine s = Some s'
           \<and> flight_state s' = DEPLOYED
           \<and> last_logged_deploy_time s' = get_timer s
           \<and> (use_servo s \<noteq> 0 \<longrightarrow>
                 OCR1B s' = 921 + (ucast (servo_open_position s) * 231) div 64)
           \<and> (use_servo s = 0 \<longrightarrow> bit (PORTA s') 2)"
  using assms
  by (simp add: update_state_machine_def beep_if_silent_def buzzer_beep_def get_timer_def
      set_servo_position_def set_pyro_state_def bit_MASK_ON Let_def)

theorem launched_max_time_deploys_witness:
  "flight_state launched_at_max_time = LAUNCHED
   \<and> max_deploy_time launched_at_max_time \<le> get_timer launched_at_max_time
   \<and> is_vote_asserted launched_at_max_time = 0
   \<and> map_option flight_state (update_state_machine launched_at_max_time) = Some DEPLOYED
   \<and> map_option last_logged_deploy_time (update_state_machine launched_at_max_time) = Some 700
   \<and> map_option OCR1B (update_state_machine launched_at_max_time) = Some 1841"
proof -
  have a: "flight_state launched_at_max_time = LAUNCHED"
    by (simp add: launched_at_max_time_def reset_state_def)
  have b: "max_deploy_time launched_at_max_time \<le> get_timer launched_at_max_time"
    by (simp add: launched_at_max_time_def reset_state_def get_timer_def)
  have c: "is_vote_asserted launched_at_max_time = 0"
    by (simp add: launched_at_max_time_def reset_state_def is_vote_asserted_def READ_PIN_def)
  have d: "use_servo launched_at_max_time = 1" "servo_open_position launched_at_max_time = 255"
    "get_timer launched_at_max_time = 700"
    by (simp_all add: launched_at_max_time_def reset_state_def get_timer_def)
  from launched_max_time_deploys [OF a b] obtain s' where
    "update_state_machine launched_at_max_time = Some s'" "flight_state s' = DEPLOYED"
    "last_logged_deploy_time s' = 700" "OCR1B s' = 1841"
    by (auto simp: d)
  with a b c show ?thesis by simp
qed

text \<open>
  Claim C2, as the code has it. A poll in the state Armed that finds the arm switch
  still armed and the breakwire disconnected returns, and leaves the machine in the
  state Launched with the timer at 0 and the launch pin (port C, bit 2) high.
\<close>

theorem armed_breakwire_launches:
  assumes "flight_state s = ARMED" and "is_armed s \<noteq> 0"
    and "is_breakwire_connected s = 0"
  shows "\<exists>s'. update_state_machine s = Some s'
           \<and> flight_state s' = LAUNCHED
           \<and> get_timer s' = 0
           \<and> bit (PORTC s') 2"
  using assms
  by (simp add: update_state_machine_def get_timer_def reset_timer_def
      set_launch_asserted_def bit_MASK_ON)

theorem armed_breakwire_launches_witness:
  "flight_state armed_on_the_pad = ARMED \<and> is_armed armed_on_the_pad \<noteq> 0
   \<and> is_breakwire_connected armed_on_the_pad = 0
   \<and> get_timer armed_on_the_pad = 7
   \<and> map_option flight_state (update_state_machine armed_on_the_pad) = Some LAUNCHED
   \<and> map_option get_timer (update_state_machine armed_on_the_pad) = Some 0
   \<and> map_option PORTC (update_state_machine armed_on_the_pad) = Some 4"
proof -
  have a: "flight_state armed_on_the_pad = ARMED"
    by (simp add: armed_on_the_pad_def reset_state_def)
  have b: "is_armed armed_on_the_pad \<noteq> 0"
    by (simp add: armed_on_the_pad_def reset_state_def is_armed_def READ_PIN_def)
  have c: "is_breakwire_connected armed_on_the_pad = 0"
    by (simp add: armed_on_the_pad_def reset_state_def is_breakwire_connected_def READ_PIN_def)
  have d: "get_timer armed_on_the_pad = 7"
    by (simp add: armed_on_the_pad_def reset_state_def get_timer_def)
  have e: "map_option PORTC (update_state_machine armed_on_the_pad) = Some 4"
    by (simp add: armed_on_the_pad_def reset_state_def update_state_machine_def
        is_armed_def is_breakwire_connected_def READ_PIN_def set_launch_asserted_def
        reset_timer_def MASK_def ON_def)
  from armed_breakwire_launches [OF a b c] obtain s' where
    "update_state_machine armed_on_the_pad = Some s'" "flight_state s' = LAUNCHED"
    "get_timer s' = 0"
    by auto
  with a b c d e show ?thesis by simp
qed

text \<open>
  The claim as it is written fails: with the arm switch back in the safe position the
  poll takes the first branch of the state Armed and goes to Preparation; the
  breakwire is not read, the timer keeps its value and the launch pin stays low.
\<close>

theorem armed_breakwire_counterexample:
  "flight_state disarmed_on_the_pad = ARMED
   \<and> is_breakwire_connected disarmed_on_the_pad = 0
   \<and> map_option flight_state (update_state_machine disarmed_on_the_pad) = Some PREPARATION
   \<and> map_option get_timer (update_state_machine disarmed_on_the_pad) = Some 7
   \<and> map_option PORTC (update_state_machine disarmed_on_the_pad) = Some 0"
  by (simp add: disarmed_on_the_pad_def reset_state_def update_state_machine_def
      is_armed_def is_breakwire_connected_def READ_PIN_def get_timer_def
      set_status_led_def buzzer_beep_def)

section \<open>The buzzer queue\<close>

lemma unat_suc_below:
  fixes a :: u8
  assumes "unat a < n" "n \<le> 255"
  shows "unat (a + 1) = unat a + 1"
proof -
  from assms have "unat a + unat (1 :: u8) < 2 ^ LENGTH(8)" by simp
  then have "unat (a + 1) = unat a + unat (1 :: u8)"
    by (simp only: unat_add_lem)
  then show ?thesis by simp
qed

lemma buzzer_inv_reset: "buzzer_inv (reset_state a b c d e)"
  by (simp add: buzzer_inv_def reset_state_def BUZZER_QUEUE_SIZE_def)

lemma slot_distinct:
  fixes i k l :: nat
  assumes "k < l" "l < 8"
  shows "(i + l) mod 8 \<noteq> (i + k) mod 8"
proof
  assume "(i + l) mod 8 = (i + k) mod 8"
  moreover have "i + k \<le> i + l" using assms by simp
  ultimately have "8 dvd (i + l) - (i + k)" by (simp only: mod_eq_dvd_iff_nat)
  then have "8 dvd l - k" by simp
  moreover have "0 < l - k" using assms by simp
  ultimately have "8 \<le> l - k" by (rule dvd_imp_le)
  with assms show False by simp
qed

lemma next_slot: "(Suc i mod 8 + k) mod 8 = Suc (i + k) mod (8::nat)"
  by (simp add: mod_add_left_eq)

lemma pending_beep:
  assumes "buzzer_inv s"
  shows "pending (buzzer_beep len s) =
    (if unat (bq_length s) = BUZZER_QUEUE_SIZE then pending s else pending s @ [len])"
proof (cases "unat (bq_length s) = BUZZER_QUEUE_SIZE")
  case True
  then show ?thesis by (simp add: buzzer_beep_def)
next
  case False
  with assms have lt: "unat (bq_length s) < 8"
    by (simp add: buzzer_inv_def BUZZER_QUEUE_SIZE_def)
  then have suc: "unat (bq_length s + 1) = unat (bq_length s) + 1"
    by (rule unat_suc_below) simp
  have len: "length (bq_queue s) = 8"
    using assms by (simp add: buzzer_inv_def BUZZER_QUEUE_SIZE_def)
  have "map (\<lambda>k. (bq_queue s)[(unat (bq_index s) + unat (bq_length s)) mod 8 := len]
               ! ((unat (bq_index s) + k) mod 8)) [0..<unat (bq_length s)]
      = map (\<lambda>k. bq_queue s ! ((unat (bq_index s) + k) mod 8)) [0..<unat (bq_length s)]"
    using lt by (intro map_cong refl nth_list_update_neq) (auto simp: slot_distinct)
  with False suc len show ?thesis
    by (simp add: pending_def buzzer_beep_def BUZZER_QUEUE_SIZE_def)
qed

lemma buzzer_inv_beep:
  assumes "buzzer_inv s"
  shows "buzzer_inv (buzzer_beep len s)"
proof (cases "unat (bq_length s) = BUZZER_QUEUE_SIZE")
  case True
  with assms show ?thesis by (simp add: buzzer_beep_def)
next
  case False
  with assms have lt: "unat (bq_length s) < 8"
    by (simp add: buzzer_inv_def BUZZER_QUEUE_SIZE_def)
  then have suc: "unat (bq_length s + 1) = unat (bq_length s) + 1"
    by (rule unat_suc_below) simp
  then have "bq_length s + 1 \<noteq> 0" by (metis Suc_eq_plus1 nat.distinct(1) unat_0)
  with assms False lt suc show ?thesis
    by (simp add: buzzer_inv_def buzzer_beep_def BUZZER_QUEUE_SIZE_def)
qed

lemma length_beep:
  "buzzer_queue_length (buzzer_beep len s) = buzzer_queue_length s
     \<longleftrightarrow> unat (bq_length s) = BUZZER_QUEUE_SIZE"
  by (simp add: buzzer_beep_def buzzer_queue_length_def)

lemma pending_pop:
  assumes i: "unat (bq_index s) < 8" and l: "bq_length s \<noteq> 0"
  shows "pending s = bq_queue s ! unat (bq_index s)
     # pending (s\<lparr>bq_index := of_nat ((unat (bq_index s) + 1) mod 8), bq_length := bq_length s - 1\<rparr>)"
proof -
  let ?i = "unat (bq_index s)" and ?l = "unat (bq_length s)"
  have pos: "0 < ?l" using l by (simp add: unat_gt_0)
  have pred: "unat (bq_length s - 1) = ?l - 1" using l by (rule unat_minus_one)
  have idx: "unat (of_nat ((?i + 1) mod 8) :: u8) = (?i + 1) mod 8"
    by (simp add: unat_of_nat)
  have "[0..<?l] = 0 # map Suc [0..<?l - 1]"
    using pos by (metis Suc_pred' map_Suc_upt upt_conv_Cons)
  then have "pending s = bq_queue s ! (?i mod 8)
      # map (\<lambda>k. bq_queue s ! ((?i + Suc k) mod 8)) [0..<?l - 1]"
    by (simp add: pending_def BUZZER_QUEUE_SIZE_def comp_def)
  then show ?thesis using i pred idx
    by (simp add: pending_def BUZZER_QUEUE_SIZE_def next_slot)
qed

lemma buzzer_tick_inv:
  assumes "buzzer_inv s"
  shows "\<exists>s'. buzzer_tick s = Some s' \<and> buzzer_inv s'
     \<and> (bq_length s' = bq_length s \<and> pending s' = pending s
         \<or> bq_length s' \<noteq> bq_length s
           \<and> pending s = bq_queue s ! unat (bq_index s) # pending s')"
proof (cases "buzzer_state s = BUZZER_OFF")
  case True
  with assms show ?thesis
    by (auto simp: buzzer_tick_def buzzer_inv_def pending_def)
next
  case False
  with assms have i: "unat (bq_index s) < 8" and l: "bq_length s \<noteq> 0"
    and le: "unat (bq_length s) \<le> 8" and q: "length (bq_queue s) = 8"
    by (simp_all add: buzzer_inv_def BUZZER_QUEUE_SIZE_def)
  let ?s1 = "s\<lparr>current_beep_duration := current_beep_duration s + 1\<rparr>"
  let ?s2 = "?s1\<lparr>bq_index := of_nat ((unat (bq_index s) + 1) mod 8), bq_length := bq_length s - 1\<rparr>"
  have pred: "unat (bq_length s - 1) = unat (bq_length s) - 1" using l by (rule unat_minus_one)
  have idx: "unat (of_nat ((unat (bq_index s) + 1) mod 8) :: u8) = (unat (bq_index s) + 1) mod 8"
    by (simp add: unat_of_nat)
  have ne: "bq_length s - 1 \<noteq> bq_length s" by simp
  have pop: "pending s = bq_queue s ! unat (bq_index s) # pending ?s2"
    using pending_pop [OF i l] by (simp add: pending_def)
  have p1: "pending ?s1 = pending s" by (simp add: pending_def)
  have inv2: "buzzer_inv (?s2\<lparr>buzzer_state := BUZZER_OFF\<rparr>)"
    using le q pred idx by (simp add: buzzer_inv_def BUZZER_QUEUE_SIZE_def)
  have inv3: "bq_length s - 1 \<noteq> 0 \<Longrightarrow> buzzer_inv (?s2\<lparr>buzzer_state := BUZZER_ON, current_beep_duration := 0, PORTB := v\<rparr>)" for v
    using le q pred idx by (simp add: buzzer_inv_def BUZZER_QUEUE_SIZE_def)
  have inv1: "buzzer_inv (?s1\<lparr>buzzer_state := st, current_beep_duration := x, PORTB := v\<rparr>)" 
     "buzzer_inv ?s1" for st x v
    using assms l by (simp_all add: buzzer_inv_def)
  show ?thesis
  proof (cases "bq_queue s ! unat (bq_index s) < current_beep_duration s + 1")
    case no: False
    with False i q inv1 p1 show ?thesis
      by (simp add: buzzer_tick_def Let_def)
  next
    case yes: True
    show ?thesis
    proof (cases "buzzer_state s = BUZZER_ON")
      case True
      with yes i q inv1 show ?thesis
        by (simp add: buzzer_tick_def Let_def pending_def)
    next
      case cool: False
      show ?thesis
      proof (cases "bq_length s - 1 = 0")
        case True
        with False cool yes i q inv2 pop ne show ?thesis
          by (simp add: buzzer_tick_def Let_def BUZZER_QUEUE_SIZE_def pending_def)
      next
        case more: False
        with False cool yes i q inv3 pop ne show ?thesis
          by (simp add: buzzer_tick_def Let_def BUZZER_QUEUE_SIZE_def pending_def)
      qed
    qed
  qed
qed

lemma buzzer_run_fifo:
  assumes "buzzer_inv s"
  shows "\<exists>t enq deq. buzzer_run s cs = Some (t, enq, deq) \<and> buzzer_inv t
           \<and> pending s @ enq = deq @ pending t"
  using assms
proof (induction cs arbitrary: s)
  case Nil
  then show ?case by simp
next
  case (Cons c cs)
  show ?case
  proof (cases c)
    case (Beep len)
    from Cons.IH [OF buzzer_inv_beep [OF Cons.prems], of len] obtain t enq deq where
      r: "buzzer_run (buzzer_beep len s) cs = Some (t, enq, deq)" "buzzer_inv t"
      "pending (buzzer_beep len s) @ enq = deq @ pending t" by blast
    with Beep show ?thesis
      by (simp add: Let_def length_beep pending_beep [OF Cons.prems] split: if_splits)
  next
    case Tick
    from buzzer_tick_inv [OF Cons.prems] obtain s' where
      t: "buzzer_tick s = Some s'" "buzzer_inv s'"
      "bq_length s' = bq_length s \<and> pending s' = pending s
         \<or> bq_length s' \<noteq> bq_length s
           \<and> pending s = bq_queue s ! unat (bq_index s) # pending s'" by blast
    from Cons.IH [OF t(2)] obtain u enq deq where
      r: "buzzer_run s' cs = Some (u, enq, deq)" "buzzer_inv u"
      "pending s' @ enq = deq @ pending u" by blast
    with Tick t show ?thesis
      by (auto simp: Let_def buzzer_queue_length_def)
  qed
qed

text \<open>
  Claim C5. Every sequence of \<open>buzzer_beep\<close> calls and \<open>buzzer_tick\<close> steps from the
  state after reset runs to its end, and then: the count \<open>buzzer_queue_length\<close> is at
  most 8; the durations that entered the queue are, in this order, the entries that
  left it followed by the entries still in it, oldest first (first in, first out); and
  while the buzzer is on or cooling down, the entry it plays (the one at \<open>index\<close>,
  whose duration the tick compares with) is the oldest entry of the queue. In any state
  with a count of 8, \<open>buzzer_beep\<close> changes nothing.
\<close>

theorem buzzer_queue_bounded_fifo:
  "(\<exists>t enq deq. buzzer_run (reset_state a b c d e) cs = Some (t, enq, deq)
       \<and> unat (buzzer_queue_length t) \<le> BUZZER_QUEUE_SIZE
       \<and> enq = deq @ pending t
       \<and> (buzzer_state t = BUZZER_OFF \<or> pending t \<noteq> [] \<and> bq_queue t ! unat (bq_index t) = hd (pending t)))
   \<and> (unat (buzzer_queue_length s) = BUZZER_QUEUE_SIZE \<longrightarrow> buzzer_beep len s = s)"
proof
  from buzzer_run_fifo [OF buzzer_inv_reset, of a b c d e cs] obtain t enq deq where
    r: "buzzer_run (reset_state a b c d e) cs = Some (t, enq, deq)" "buzzer_inv t"
      "pending (reset_state a b c d e) @ enq = deq @ pending t" by blast
  have p0: "pending (reset_state a b c d e) = []"
    by (simp add: pending_def reset_state_def)
  have "buzzer_state t = BUZZER_OFF \<or> pending t \<noteq> [] \<and> bq_queue t ! unat (bq_index t) = hd (pending t)"
  proof (cases "buzzer_state t = BUZZER_OFF")
    case False
    with r(2) have "unat (bq_index t) < 8" "bq_length t \<noteq> 0"
      by (simp_all add: buzzer_inv_def BUZZER_QUEUE_SIZE_def)
    from pending_pop [OF this] show ?thesis by simp
  qed simp
  with r p0 show "\<exists>t enq deq. buzzer_run (reset_state a b c d e) cs = Some (t, enq, deq)
       \<and> unat (buzzer_queue_length t) \<le> BUZZER_QUEUE_SIZE
       \<and> enq = deq @ pending t
       \<and> (buzzer_state t = BUZZER_OFF \<or> pending t \<noteq> [] \<and> bq_queue t ! unat (bq_index t) = hd (pending t))"
    by (simp add: buzzer_inv_def buzzer_queue_length_def)
  show "unat (buzzer_queue_length s) = BUZZER_QUEUE_SIZE \<longrightarrow> buzzer_beep len s = s"
    by (simp add: buzzer_beep_def buzzer_queue_length_def)
qed


theorem buzzer_queue_bounded_fifo_witness:
  "(\<exists>t. buzzer_run (reset_state 0 0 0 0 0) [Beep 0, Beep 1, Tick, Tick, Tick]
          = Some (t, [0, 1], [0])
        \<and> pending t = [1]
        \<and> unat (buzzer_queue_length t) \<le> BUZZER_QUEUE_SIZE)
   \<and> unat (buzzer_queue_length full_queue) = BUZZER_QUEUE_SIZE
   \<and> buzzer_beep 5 full_queue = full_queue"
proof -
  let ?cs = "[Beep 0, Beep 1, Tick, Tick, Tick]"
  have logs: "map_option snd (buzzer_run (reset_state 0 0 0 0 0) ?cs) = Some ([0, 1], [0])"
    by code_simp
  have full: "unat (buzzer_queue_length full_queue) = BUZZER_QUEUE_SIZE"
    by (simp add: full_queue_def reset_state_def buzzer_queue_length_def BUZZER_QUEUE_SIZE_def)
  from buzzer_queue_bounded_fifo [of 0 0 0 0 0 ?cs full_queue 5] obtain t enq deq where
    r: "buzzer_run (reset_state 0 0 0 0 0) ?cs = Some (t, enq, deq)"
      "unat (buzzer_queue_length t) \<le> BUZZER_QUEUE_SIZE" "enq = deq @ pending t"
    and noop: "unat (buzzer_queue_length full_queue) = BUZZER_QUEUE_SIZE
                 \<longrightarrow> buzzer_beep 5 full_queue = full_queue"
    by blast
  from logs r(1) have "enq = [0, 1]" "deq = [0]" by simp_all
  with r noop full show ?thesis by simp
qed


section \<open>The link layer\<close>

lemma unat_suc_lt:
  fixes a b :: u8
  assumes "unat a < unat b"
  shows "unat (a + 1) = unat a + 1"
proof -
  have "unat b < 2 ^ LENGTH(8)" by (rule unsigned_less)
  with assms have "unat a + unat (1 :: u8) < 2 ^ LENGTH(8)" by simp
  then have "unat (a + 1) = unat a + unat (1 :: u8)"
    by (simp only: unat_add_lem)
  then show ?thesis by simp
qed

lemma stuff_append: "stuff (xs @ ys) = stuff xs @ stuff ys"
  by (induction xs) simp_all

lemma tx_interrupts_idle:
  "tx_link_state s = STATE_IDLE \<Longrightarrow> tx_interrupts s = Some s"
  by simp

lemma tx_interrupts_step:
  assumes "tx_link_state s \<noteq> STATE_IDLE" "tx_link_state s \<noteq> STATE_FILLING"
    and "USART0_TX_vect s = Some s'"
  shows "tx_interrupts s = tx_interrupts s'"
  using assms by (subst tx_interrupts.simps) simp

lemma tx_ending:
  assumes "tx_link_state s = STATE_ENDING"
  shows "tx_interrupts s = Some (s\<lparr>UDR0_sent := UDR0_sent s @ [CHAR_STOP], tx_link_state := STATE_IDLE\<rparr>)"
proof -
  have "USART0_TX_vect s = Some (s\<lparr>UDR0_sent := UDR0_sent s @ [CHAR_STOP], tx_link_state := STATE_IDLE\<rparr>)"
    using assms by (simp add: USART0_TX_vect_def send_byte_def)
  with assms show ?thesis
    by (subst tx_interrupts_step [where s' = "s\<lparr>UDR0_sent := UDR0_sent s @ [CHAR_STOP], tx_link_state := STATE_IDLE\<rparr>"]) simp_all
qed

lemma tx_crc_phase:
  assumes "tx_link_state s = STATE_FRAME" "lbp_tx_buffer_index s = lbp_tx_buffer_length s"
  shows "tx_interrupts s =
    Some (s\<lparr>UDR0_sent := UDR0_sent s @ stuff [tx_crc s] @ [CHAR_STOP], tx_link_state := STATE_IDLE\<rparr>)"
proof (cases "must_escape (tx_crc s)")
  case True
  let ?s1 = "s\<lparr>UDR0_sent := UDR0_sent s @ [CHAR_ESCAPE], tx_link_state := STATE_ESCAPING\<rparr>"
  let ?s2 = "s\<lparr>UDR0_sent := UDR0_sent s @ [CHAR_ESCAPE, NOT (tx_crc s)], tx_link_state := STATE_ENDING\<rparr>"
  have 1: "USART0_TX_vect s = Some ?s1"
    using assms True by (simp add: USART0_TX_vect_def send_byte_def)
  have 2: "USART0_TX_vect ?s1 = Some ?s2"
    using assms True by (simp add: USART0_TX_vect_def send_byte_def)
  have "tx_interrupts s = tx_interrupts ?s1"
    using assms 1 by (intro tx_interrupts_step) simp_all
  also have "\<dots> = tx_interrupts ?s2"
    using 2 by (intro tx_interrupts_step) simp_all
  also have "\<dots> = Some (?s2\<lparr>UDR0_sent := UDR0_sent ?s2 @ [CHAR_STOP], tx_link_state := STATE_IDLE\<rparr>)"
    by (intro tx_ending) simp
  finally show ?thesis using True by simp
next
  case False
  let ?s1 = "s\<lparr>UDR0_sent := UDR0_sent s @ [tx_crc s], tx_link_state := STATE_ENDING\<rparr>"
  have 1: "USART0_TX_vect s = Some ?s1"
    using assms False by (simp add: USART0_TX_vect_def send_byte_def)
  have "tx_interrupts s = tx_interrupts ?s1"
    using assms 1 by (intro tx_interrupts_step) simp_all
  also have "\<dots> = Some (?s1\<lparr>UDR0_sent := UDR0_sent ?s1 @ [CHAR_STOP], tx_link_state := STATE_IDLE\<rparr>)"
    by (intro tx_ending) simp
  finally show ?thesis using False by simp
qed

text \<open>A data byte that is not the last one, or that needs no escape.\<close>

lemma tx_data_byte:
  assumes st: "tx_link_state s = STATE_FRAME"
    and idx: "unat (lbp_tx_buffer_index s) < unat (lbp_tx_buffer_length s)"
    and len: "unat (lbp_tx_buffer_index s) < length (lbp_tx_buffer s)"
    and b: "b = lbp_tx_buffer s ! unat (lbp_tx_buffer_index s)"
    and ok: "must_escape b \<longrightarrow> unat (lbp_tx_buffer_index s) + 1 < unat (lbp_tx_buffer_length s)"
  shows "tx_interrupts s =
    tx_interrupts (s\<lparr>lbp_tx_buffer_index := lbp_tx_buffer_index s + 1,
                     tx_crc := crc8 b (tx_crc s),
                     UDR0_sent := UDR0_sent s @ stuff [b]\<rparr>)"
proof -
  have ne: "lbp_tx_buffer_index s \<noteq> lbp_tx_buffer_length s" using idx by auto
  have suc: "unat (lbp_tx_buffer_index s + 1) = unat (lbp_tx_buffer_index s) + 1"
    using idx by (rule unat_suc_lt)
  show ?thesis
  proof (cases "must_escape b")
    case False
    let ?s1 = "s\<lparr>lbp_tx_buffer_index := lbp_tx_buffer_index s + 1,
                     tx_crc := crc8 b (tx_crc s),
                     UDR0_sent := UDR0_sent s @ [b]\<rparr>"
    have 1: "USART0_TX_vect s = Some ?s1"
      using st ne len b False by (simp add: USART0_TX_vect_def send_byte_def Let_def not_le)
    have "tx_interrupts s = tx_interrupts ?s1"
      using st 1 by (intro tx_interrupts_step) simp_all
    then show ?thesis using False by simp
  next
    case True
    let ?s1 = "s\<lparr>lbp_tx_buffer_index := lbp_tx_buffer_index s + 1,
                     tx_crc := crc8 b (tx_crc s),
                     UDR0_sent := UDR0_sent s @ [CHAR_ESCAPE],
                     tx_link_state := STATE_ESCAPING\<rparr>"
    let ?s2 = "s\<lparr>lbp_tx_buffer_index := lbp_tx_buffer_index s + 1,
                     tx_crc := crc8 b (tx_crc s),
                     UDR0_sent := UDR0_sent s @ [CHAR_ESCAPE, NOT b]\<rparr>"
    have 1: "USART0_TX_vect s = Some ?s1"
      using st ne len b True by (simp add: USART0_TX_vect_def send_byte_def Let_def not_le)
    have ne2: "lbp_tx_buffer_index s + 1 \<noteq> lbp_tx_buffer_length s"
      using ok True suc by auto
    have nz: "lbp_tx_buffer_index s + 1 \<noteq> 0"
      using suc by (metis add_is_0 unat_0 zero_neq_one)
    have 2: "USART0_TX_vect ?s1 = Some ?s2"
      using st ne2 nz len b suc by (simp add: USART0_TX_vect_def send_byte_def not_le)
    have "tx_interrupts s = tx_interrupts ?s1"
      using st 1 by (intro tx_interrupts_step) simp_all
    also have "\<dots> = tx_interrupts ?s2"
      using 2 by (intro tx_interrupts_step) simp_all
    finally show ?thesis using True by simp
  qed
qed


lemma tx_data_run:
  assumes "tx_link_state s = STATE_FRAME"
    and "unat (lbp_tx_buffer_length s) \<le> length (lbp_tx_buffer s)"
    and "unat (lbp_tx_buffer_index s) \<le> unat (lbp_tx_buffer_length s)"
    and "bs = drop (unat (lbp_tx_buffer_index s))
                (take (unat (lbp_tx_buffer_length s)) (lbp_tx_buffer s))"
    and "bs \<noteq> [] \<longrightarrow> \<not> must_escape (last bs)"
  shows "tx_interrupts s =
    Some (s\<lparr>lbp_tx_buffer_index := lbp_tx_buffer_length s,
            tx_crc := crc8_bytes bs (tx_crc s),
            UDR0_sent := UDR0_sent s @ stuff (bs @ [crc8_bytes bs (tx_crc s)]) @ [CHAR_STOP],
            tx_link_state := STATE_IDLE\<rparr>)"
  using assms
proof (induction bs arbitrary: s)
  case Nil
  then have "unat (lbp_tx_buffer_index s) = unat (lbp_tx_buffer_length s)" by simp
  then have eq: "lbp_tx_buffer_index s = lbp_tx_buffer_length s"
    by (simp add: word_unat_eq_iff)
  show ?case
    using tx_crc_phase [OF Nil.prems(1) eq] by (simp add: eq [symmetric])
next
  case (Cons b bs)
  let ?i = "unat (lbp_tx_buffer_index s)" and ?n = "unat (lbp_tx_buffer_length s)"
  let ?buf = "lbp_tx_buffer s"
  from Cons.prems(4) have d: "drop ?i (take ?n ?buf) = b # bs" by simp
  then have lt: "?i < ?n" using Cons.prems(2)
    by (metis drop_all length_take list.distinct(1) min.absorb2 not_le)
  have b: "b = ?buf ! ?i" using d lt by (metis nth_take nth_via_drop)
  have rest: "bs = drop (?i + 1) (take ?n ?buf)"
    using d by (metis Suc_eq_plus1 drop_Suc list.sel(3) tl_drop)
  have ok: "must_escape b \<longrightarrow> ?i + 1 < ?n"
  proof
    assume "must_escape b"
    with Cons.prems(5) have "bs \<noteq> []" by auto
    with rest Cons.prems(2) show "?i + 1 < ?n" by (auto simp: not_less)
  qed
  let ?s1 = "s\<lparr>lbp_tx_buffer_index := lbp_tx_buffer_index s + 1,
                 tx_crc := crc8 b (tx_crc s),
                 UDR0_sent := UDR0_sent s @ stuff [b]\<rparr>"
  have suc: "unat (lbp_tx_buffer_index s + 1) = ?i + 1" using lt by (rule unat_suc_lt)
  have step: "tx_interrupts s = tx_interrupts ?s1"
    using Cons.prems(1) lt Cons.prems(2) b ok by (intro tx_data_byte) auto
  have last: "bs \<noteq> [] \<longrightarrow> \<not> must_escape (last bs)" using Cons.prems(5) by auto
  have "tx_interrupts ?s1 =
    Some (?s1\<lparr>lbp_tx_buffer_index := lbp_tx_buffer_length ?s1,
            tx_crc := crc8_bytes bs (tx_crc ?s1),
            UDR0_sent := UDR0_sent ?s1 @ stuff (bs @ [crc8_bytes bs (tx_crc ?s1)]) @ [CHAR_STOP],
            tx_link_state := STATE_IDLE\<rparr>)"
    using Cons.prems(1,2) lt rest suc last by (intro Cons.IH) simp_all
  with step show ?case by simp
qed

lemma rx_stream_silent_step:
  assumes "USART0_RX_link s b = Some (s', None)"
  shows "USART0_RX_stream s (b # bs) = USART0_RX_stream s' bs"
  using assms by (cases "USART0_RX_stream s' bs") auto


declare USART0_RX_stream.simps(2) [simp del]

lemma rx_data_byte:
  assumes st: "rx_link_state s = STATE_FRAME"
    and room: "unat (lbp_rx_buffer_length s) < LBP_BUFFER_SIZE"
    and len: "length (lbp_rx_buffer s) = LBP_BUFFER_SIZE"
  shows "USART0_RX_stream s (stuff [b] @ rest) =
    USART0_RX_stream
      (s\<lparr>lbp_rx_buffer := (lbp_rx_buffer s)[unat (lbp_rx_buffer_length s) := b],
         lbp_rx_buffer_length := lbp_rx_buffer_length s + 1,
         rx_crc := crc8 b (rx_crc s)\<rparr>) rest"
proof (cases "must_escape b")
  case False
  have "USART0_RX_link s b =
      Some (s\<lparr>lbp_rx_buffer := (lbp_rx_buffer s)[unat (lbp_rx_buffer_length s) := b],
         lbp_rx_buffer_length := lbp_rx_buffer_length s + 1,
         rx_crc := crc8 b (rx_crc s)\<rparr>, None)"
    using st room len False
    by (simp add: USART0_RX_link_def rx_add_byte_def must_escape_def)
  with False show ?thesis by (simp add: rx_stream_silent_step)
next
  case True
  let ?s1 = "s\<lparr>rx_link_state := STATE_ESCAPING\<rparr>"
  have 1: "USART0_RX_link s CHAR_ESCAPE = Some (?s1, None)"
    using st by (simp add: USART0_RX_link_def)
  have 2: "USART0_RX_link ?s1 (NOT b) =
      Some (s\<lparr>lbp_rx_buffer := (lbp_rx_buffer s)[unat (lbp_rx_buffer_length s) := b],
         lbp_rx_buffer_length := lbp_rx_buffer_length s + 1,
         rx_crc := crc8 b (rx_crc s)\<rparr>, None)"
    using st room len
    by (simp add: USART0_RX_link_def rx_add_byte_def st [symmetric])
  from True 1 2 show ?thesis by (simp add: rx_stream_silent_step)
qed

lemma rx_data_run:
  assumes "rx_link_state s = STATE_FRAME"
    and "length (lbp_rx_buffer s) = LBP_BUFFER_SIZE"
    and "unat (lbp_rx_buffer_length s) + length bs \<le> LBP_BUFFER_SIZE"
  shows "USART0_RX_stream s (stuff bs @ rest) =
    USART0_RX_stream
      (s\<lparr>lbp_rx_buffer := take (unat (lbp_rx_buffer_length s)) (lbp_rx_buffer s) @ bs
            @ drop (unat (lbp_rx_buffer_length s) + length bs) (lbp_rx_buffer s),
         lbp_rx_buffer_length := lbp_rx_buffer_length s + of_nat (length bs),
         rx_crc := crc8_bytes bs (rx_crc s)\<rparr>) rest"
  using assms
proof (induction bs arbitrary: s)
  case Nil
  show ?case by simp
next
  case (Cons b bs)
  let ?k = "unat (lbp_rx_buffer_length s)"
  let ?s1 = "s\<lparr>lbp_rx_buffer := (lbp_rx_buffer s)[?k := b],
         lbp_rx_buffer_length := lbp_rx_buffer_length s + 1,
         rx_crc := crc8 b (rx_crc s)\<rparr>"
  have room: "?k < LBP_BUFFER_SIZE" using Cons.prems(3) by simp
  have suc: "unat (lbp_rx_buffer_length s + 1) = ?k + 1"
    using room by (intro unat_suc_below [where n = LBP_BUFFER_SIZE]) (simp_all add: LBP_BUFFER_SIZE_def)
  have step: "USART0_RX_stream s (stuff (b # bs) @ rest) = USART0_RX_stream ?s1 (stuff bs @ rest)"
    using rx_data_byte [OF Cons.prems(1) room Cons.prems(2), of b "stuff bs @ rest"]
    by simp
  have ih: "USART0_RX_stream ?s1 (stuff bs @ rest) =
    USART0_RX_stream
      (?s1\<lparr>lbp_rx_buffer := take (unat (lbp_rx_buffer_length ?s1)) (lbp_rx_buffer ?s1) @ bs
            @ drop (unat (lbp_rx_buffer_length ?s1) + length bs) (lbp_rx_buffer ?s1),
         lbp_rx_buffer_length := lbp_rx_buffer_length ?s1 + of_nat (length bs),
         rx_crc := crc8_bytes bs (rx_crc ?s1)\<rparr>) rest"
    using Cons.prems suc by (intro Cons.IH) simp_all
  have buf: "take (?k + 1) ((lbp_rx_buffer s)[?k := b]) @ bs
            @ drop (?k + 1 + length bs) ((lbp_rx_buffer s)[?k := b])
     = take ?k (lbp_rx_buffer s) @ (b # bs) @ drop (?k + length (b # bs)) (lbp_rx_buffer s)"
    using room Cons.prems(2) by (simp add: take_Suc_conv_app_nth)
  show ?case unfolding step ih using buf suc by (simp add: add.assoc)
qed


lemma chars_distinct:
  "CHAR_STOP \<noteq> CHAR_ESCAPE" "CHAR_STOP \<noteq> CHAR_START" "CHAR_START \<noteq> CHAR_ESCAPE"
  by (simp_all add: CHAR_STOP_def CHAR_ESCAPE_def CHAR_START_def)

lemma tx_frame:
  assumes len: "length (lbp_tx_buffer s) = LBP_BUFFER_SIZE"
    and n: "n + 3 \<le> LBP_BUFFER_SIZE"
    and bs: "bs = take (n + 3) (lbp_tx_buffer s)"
    and last: "\<not> must_escape (last bs)"
  shows "tx_interrupts (lbp_send_message (of_nat n) s) =
    Some (s\<lparr>lbp_tx_buffer_length := of_nat n + 3,
            lbp_tx_buffer_index := of_nat n + 3,
            tx_crc := crc8_bytes bs 0,
            UDR0_sent := UDR0_sent s @ frame_bytes bs,
            tx_link_state := STATE_IDLE\<rparr>)"
proof -
  let ?s1 = "lbp_send_message (of_nat n) s"
  have u: "unat (of_nat n + 3 :: u8) = n + 3"
    using n by (simp add: LBP_BUFFER_SIZE_def unat_word_ariths unat_of_nat)
  have "tx_interrupts ?s1 =
    Some (?s1\<lparr>lbp_tx_buffer_index := lbp_tx_buffer_length ?s1,
            tx_crc := crc8_bytes bs (tx_crc ?s1),
            UDR0_sent := UDR0_sent ?s1 @ stuff (bs @ [crc8_bytes bs (tx_crc ?s1)]) @ [CHAR_STOP],
            tx_link_state := STATE_IDLE\<rparr>)"
    using len n bs last u by (intro tx_data_run) (simp_all add: lbp_send_message_def)
  then show ?thesis by (simp add: lbp_send_message_def frame_bytes_def)
qed

lemma rx_frame:
  assumes st: "rx_link_state r \<noteq> STATE_FRAME" "rx_link_state r \<noteq> STATE_ESCAPING"
    and len: "length (lbp_rx_buffer r) = LBP_BUFFER_SIZE"
    and n: "n + 4 \<le> LBP_BUFFER_SIZE"
    and bs: "length bs = n + 3"
  shows "USART0_RX_stream r (frame_bytes bs) =
    Some (r\<lparr>lbp_rx_buffer := bs @ [crc8_bytes bs 0] @ drop (n + 4) (lbp_rx_buffer r),
            lbp_rx_buffer_length := of_nat n + 4,
            rx_crc := 0,
            rx_link_state := STATE_IDLE\<rparr>, [(bs, of_nat n)])"
proof -
  let ?r1 = "r\<lparr>lbp_rx_buffer_length := 0, rx_link_state := STATE_FRAME, rx_crc := 0\<rparr>"
  let ?data = "bs @ [crc8_bytes bs 0]"
  let ?r2 = "?r1\<lparr>lbp_rx_buffer := take (unat (lbp_rx_buffer_length ?r1)) (lbp_rx_buffer ?r1) @ ?data
            @ drop (unat (lbp_rx_buffer_length ?r1) + length ?data) (lbp_rx_buffer ?r1),
         lbp_rx_buffer_length := lbp_rx_buffer_length ?r1 + of_nat (length ?data),
         rx_crc := crc8_bytes ?data (rx_crc ?r1)\<rparr>"
  have 1: "USART0_RX_link r CHAR_START = Some (?r1, None)"
    using st by (simp add: USART0_RX_link_def)
  have 2: "USART0_RX_stream ?r1 (stuff ?data @ [CHAR_STOP]) = USART0_RX_stream ?r2 [CHAR_STOP]"
    using len n bs by (intro rx_data_run) simp_all
  have u: "(4::u8) \<le> of_nat n + 4"
    using n by (simp add: LBP_BUFFER_SIZE_def word_le_nat_alt unat_word_ariths unat_of_nat)
  have u': "(4::u8) \<le> 4 + of_nat n"
    using u by (simp add: add.commute)
  have 3: "USART0_RX_link ?r2 CHAR_STOP =
      Some (?r2\<lparr>rx_link_state := STATE_IDLE\<rparr>, Some (of_nat n))"
    using bs u u' by (simp add: USART0_RX_link_def crc8_bytes_with_crc chars_distinct)
  have u2: "unat (of_nat n :: u8) = n"
    using n by (simp add: LBP_BUFFER_SIZE_def unat_of_nat)
  have "USART0_RX_stream r (frame_bytes bs) = USART0_RX_stream ?r1 (stuff ?data @ [CHAR_STOP])"
    unfolding frame_bytes_def using 1 by (rule rx_stream_silent_step)
  also note 2
  also have "USART0_RX_stream ?r2 [CHAR_STOP] =
      Some (?r2\<lparr>rx_link_state := STATE_IDLE\<rparr>, [(bs, of_nat n)])"
    using 3 bs u2 by (simp add: USART0_RX_stream.simps(2))
  finally show ?thesis using bs by (simp add: crc8_bytes_with_crc add.commute)
qed

text \<open>
  Claim C3, as the code has it. The transmit buffer of the sender holds a 3-byte
  header and a payload of at most 28 bytes, and the last of these bytes (the last
  payload byte, or the command id when the payload is empty) is not START, STOP or
  ESCAPE; the other bytes are arbitrary. Then \<open>lbp_send_message\<close> and the transmit
  interrupts run to the end and leave the transmitter Idle, and a receiver in the state
  Idle that is fed the bytes written to \<open>UDR0\<close> calls \<open>parse_packet\<close> exactly once,
  with the header and payload of the sender in its buffer and with the payload length.
\<close>

theorem link_round_trip:
  assumes "length (lbp_tx_buffer s) = LBP_BUFFER_SIZE"
    and "length header = 3"
    and "take (3 + length payload) (lbp_tx_buffer s) = header @ payload"
    and "length payload \<le> 28"
    and "\<not> must_escape (last (header @ payload))"
    and "rx_link_state r = STATE_IDLE"
    and "length (lbp_rx_buffer r) = LBP_BUFFER_SIZE"
  shows "map_option tx_link_state
           (tx_interrupts (lbp_send_message (of_nat (length payload)) s)) = Some STATE_IDLE
         \<and> loopback s (of_nat (length payload)) r
             = Some [(header @ payload, of_nat (length payload))]"
proof -
  let ?n = "length payload" and ?bs = "header @ payload"
  have tx: "tx_interrupts (lbp_send_message (of_nat ?n) s) =
    Some (s\<lparr>lbp_tx_buffer_length := of_nat ?n + 3,
            lbp_tx_buffer_index := of_nat ?n + 3,
            tx_crc := crc8_bytes ?bs 0,
            UDR0_sent := UDR0_sent s @ frame_bytes ?bs,
            tx_link_state := STATE_IDLE\<rparr>)"
    using assms by (intro tx_frame) (simp_all add: LBP_BUFFER_SIZE_def add.commute)
  have rx: "USART0_RX_stream r (frame_bytes ?bs) =
    Some (r\<lparr>lbp_rx_buffer := ?bs @ [crc8_bytes ?bs 0] @ drop (?n + 4) (lbp_rx_buffer r),
            lbp_rx_buffer_length := of_nat ?n + 4,
            rx_crc := 0,
            rx_link_state := STATE_IDLE\<rparr>, [(?bs, of_nat ?n)])"
    using assms by (intro rx_frame) (simp_all add: LBP_BUFFER_SIZE_def)
  show ?thesis unfolding loopback_def tx using rx by simp
qed

theorem link_round_trip_witness:
  "must_escape 0x55 \<and> must_escape 0x5A \<and> must_escape 0x50
   \<and> map_option tx_link_state (tx_interrupts (lbp_send_message 4 sender_4)) = Some STATE_IDLE
   \<and> loopback sender_4 4 (reset_state 0 0 0 0 0)
       = Some [([0x3F, 0x00, 0x10, 0x55, 0x5A, 0x50, 0x01], 4)]"
  using link_round_trip [of sender_4 "[0x3F, 0x00, 0x10]" "[0x55, 0x5A, 0x50, 0x01]"
      "reset_state 0 0 0 0 0"]
  by (simp add: sender_4_def reset_state_def must_escape_def CHAR_STOP_def CHAR_START_def
      CHAR_ESCAPE_def LBP_BUFFER_SIZE_def)

text \<open>
  The claim as it is written fails in two ways. A payload of 29 bytes fills the
  32-byte receive buffer before the CRC byte arrives; the receiver drops the frame at
  the CRC byte and never calls \<open>parse_packet\<close>. And when the last data byte is a
  reserved byte, the transmit interrupt finds \<open>index = length\<close> in the state
  Escaping and sends the complement of the CRC in place of the complement of the data
  byte, so the frame that arrives fails its CRC check.
\<close>

theorem link_round_trip_counterexample:
  "map_option tx_link_state (tx_interrupts (lbp_send_message 29 sender_29)) = Some STATE_IDLE
   \<and> loopback sender_29 29 (reset_state 0 0 0 0 0) = Some []
   \<and> map_option UDR0_sent (tx_interrupts (lbp_send_message 1 sender_last_escaped))
       = Some [0x55, 0x3F, 0x00, 0x10, 0x50, 0x25, 0x5A]
   \<and> loopback sender_last_escaped 1 (reset_state 0 0 0 0 0) = Some []"
  by code_simp

text \<open>
  Claim C6. In the state Frame, a STOP byte that finds a non-zero CRC accumulator or
  fewer than 4 bytes in the buffer makes no call of \<open>parse_packet\<close> and changes
  nothing but the receive link state, which becomes Idle: nothing is transmitted. With
  32 bytes in the buffer, a data byte (any byte in the state Escaping, a byte other
  than START, STOP and ESCAPE in the state Frame) does the same.
\<close>

theorem bad_frames_are_dropped:
  "(rx_link_state s = STATE_FRAME \<and> (rx_crc s \<noteq> 0 \<or> lbp_rx_buffer_length s < 4) \<longrightarrow>
      USART0_RX_link s CHAR_STOP = Some (s\<lparr>rx_link_state := STATE_IDLE\<rparr>, None)
      \<and> USART0_RX_vect s CHAR_STOP = Some (s\<lparr>rx_link_state := STATE_IDLE\<rparr>))
   \<and> (unat (lbp_rx_buffer_length t) = LBP_BUFFER_SIZE
        \<and> (rx_link_state t = STATE_ESCAPING
            \<or> rx_link_state t = STATE_FRAME \<and> \<not> must_escape byte) \<longrightarrow>
      USART0_RX_link t byte = Some (t\<lparr>rx_link_state := STATE_IDLE\<rparr>, None)
      \<and> USART0_RX_vect t byte = Some (t\<lparr>rx_link_state := STATE_IDLE\<rparr>))"
  by (auto simp: USART0_RX_vect_def USART0_RX_link_def rx_add_byte_def must_escape_def
      CHAR_STOP_def CHAR_START_def CHAR_ESCAPE_def not_le)

theorem bad_frames_are_dropped_witness:
  "rx_link_state short_frame = STATE_FRAME \<and> lbp_rx_buffer_length short_frame < 4
   \<and> USART0_RX_link short_frame CHAR_STOP
       = Some (short_frame\<lparr>rx_link_state := STATE_IDLE\<rparr>, None)
   \<and> USART0_RX_vect short_frame CHAR_STOP = Some (short_frame\<lparr>rx_link_state := STATE_IDLE\<rparr>)
   \<and> unat (lbp_rx_buffer_length full_frame) = LBP_BUFFER_SIZE
   \<and> rx_link_state full_frame = STATE_FRAME \<and> \<not> must_escape 0x01
   \<and> USART0_RX_link full_frame 0x01 = Some (full_frame\<lparr>rx_link_state := STATE_IDLE\<rparr>, None)
   \<and> USART0_RX_vect full_frame 0x01 = Some (full_frame\<lparr>rx_link_state := STATE_IDLE\<rparr>)"
proof -
  have a: "rx_link_state short_frame = STATE_FRAME" "lbp_rx_buffer_length short_frame < 4"
    by (simp_all add: short_frame_def reset_state_def)
  have b: "unat (lbp_rx_buffer_length full_frame) = LBP_BUFFER_SIZE"
    "rx_link_state full_frame = STATE_FRAME" "\<not> must_escape 0x01"
    by (simp_all add: full_frame_def reset_state_def LBP_BUFFER_SIZE_def must_escape_def
        CHAR_STOP_def CHAR_START_def CHAR_ESCAPE_def)
  from bad_frames_are_dropped [of short_frame full_frame "0x01"] a b show ?thesis by simp
qed

text \<open>
  Claim C8 does not hold of the code. In the state Idle a byte other than START falls
  through to the end of the interrupt, where it is stored in the receive buffer and
  folded into the CRC accumulator like a data byte of a frame. After reset the byte
  \<open>0x01\<close> leaves the link state Idle, but the buffer starts with \<open>0x01\<close>, its length
  is 1 and the CRC accumulator is \<open>0x5E\<close>.
\<close>

theorem idle_byte_is_stored:
  "USART0_RX_link (reset_state 0 0 0 0 0) 0x01 =
     Some ((reset_state 0 0 0 0 0)
             \<lparr>lbp_rx_buffer := 1 # replicate 31 0, lbp_rx_buffer_length := 1, rx_crc := 0x5E\<rparr>,
           None)"
proof -
  have c: "crc8 1 0 = 0x5E" by code_simp
  have r: "replicate 32 (0::u8) = 0 # replicate 31 0" by (simp add: numeral_eq_Suc)
  show ?thesis
    by (simp add: USART0_RX_link_def rx_add_byte_def reset_state_def CHAR_START_def
        LBP_BUFFER_SIZE_def c r)
qed


section \<open>The packet dispatcher\<close>

lemma name_loop_run:
  "name_loop 0 reply =
     (9, reply[3 := 0x53, 4 := 0x52, 5 := 0x50, 6 := 0x20, 7 := 0x56, 8 := 0x30,
               9 := 0x2E, 10 := 0x30, 11 := 0x20])"
  by code_simp

lemma name_bytes:
  "map of_char LBP_EXTENDED_IDENTIFY_NAME
     = [0x53, 0x52, 0x50, 0x20, 0x56, 0x30, 0x2E, 0x30, 0x20 :: u8]"
  by (simp add: LBP_EXTENDED_IDENTIFY_NAME_def)

lemma buffer_32:
  assumes "length (xs :: u8 list) = LBP_BUFFER_SIZE"
  shows "\<exists>x0 x1 x2 x3 x4 x5 x6 x7 x8 x9 x10 x11 rest.
           xs = x0 # x1 # x2 # x3 # x4 # x5 # x6 # x7 # x8 # x9 # x10 # x11 # rest
           \<and> length rest = 20"
proof -
  have len: "length xs = 32" using assms by (simp add: LBP_BUFFER_SIZE_def)
  have "length (take 12 xs)
      = Suc (Suc (Suc (Suc (Suc (Suc (Suc (Suc (Suc (Suc (Suc (Suc 0)))))))))))"
    using len by simp
  then obtain x0 x1 x2 x3 x4 x5 x6 x7 x8 x9 x10 x11 where
    t: "take 12 xs = [x0, x1, x2, x3, x4, x5, x6, x7, x8, x9, x10, x11]"
    unfolding length_Suc_conv by auto
  have "xs = take 12 xs @ drop 12 xs" by simp
  then have "xs = x0 # x1 # x2 # x3 # x4 # x5 # x6 # x7 # x8 # x9 # x10 # x11 # drop 12 xs"
    unfolding t by simp
  moreover have "length (drop 12 xs) = 20" using len by simp
  ultimately show ?thesis by blast
qed

lemma reserved_page_1:
  assumes "LBP_TYPE (lbp_rx_buffer s) = LBP_SYNC"
    and "packet_id (lbp_rx_buffer s) = LBP_EXTENDED_IDENTIFY"
    and "1 \<le> data_length"
    and "packet_data (lbp_rx_buffer s) 0 = 1"
  shows "parse_reserved s data_length =
    lbp_send_message 8
      (s\<lparr>lbp_rx_buffer := (lbp_rx_buffer s)[0 := srcinfo (lbp_rx_buffer s) OR LBP_REPLY,
                                         2 := LBP_EXTENDED_IDENTIFY],
         lbp_tx_buffer := (lbp_tx_buffer s)[3 := 0x53, 4 := 0x52, 5 := 0x50, 6 := 0x20,
               7 := 0x56, 8 := 0x30, 9 := 0x2E, 10 := 0x30, 11 := 0x20]\<rparr>)"
proof -
  have dl: "\<not> data_length < 1" using assms(3) by (simp only: not_less)
  have d0: "packet_data ((lbp_rx_buffer s)[0 := v]) 0 = 1" for v
    using assms(4) by (simp add: packet_data_def)
  have ids: "LBP_EXTENDED_IDENTIFY \<noteq> LBP_NACK" "LBP_EXTENDED_IDENTIFY \<noteq> LBP_IDENTIFY"
    by (simp_all add: LBP_EXTENDED_IDENTIFY_def LBP_NACK_def LBP_IDENTIFY_def)
  have page: "\<not> (0x10 :: u8) \<le> 1" by (simp add: word_le_nat_alt)
  show ?thesis
    unfolding parse_reserved_def Let_def
    using assms(1,2) dl d0 ids page
    by (simp add: set_packet_srcinfo_def set_packet_id_def name_loop_run)
qed

text \<open>
  Claim C9. The transmit buffer is free (\<open>parse_packet\<close> gets its reply buffer) and
  the receive buffer holds a synchronous extended-identify request with at least one
  data byte, the first of them 1. Then \<open>parse_packet\<close> returns with a message under
  way whose declared data length is the number of characters of the name minus one;
  the reply buffer holds all characters of the name from \<open>data[0]\<close> on; and the
  transmit interrupts put on the wire the frame of the three header bytes followed by
  the name without its last character. (The header is the source address, the
  address and sequence bits of the request, and the id byte the transmit buffer held
  before.)
\<close>

theorem extended_identify_page_1_reply:
  assumes "tx_link_state s = STATE_IDLE"
    and "length (lbp_tx_buffer s) = LBP_BUFFER_SIZE"
    and "LBP_TYPE (lbp_rx_buffer s) = LBP_SYNC"
    and "packet_id (lbp_rx_buffer s) = LBP_EXTENDED_IDENTIFY"
    and "1 \<le> data_length"
    and "packet_data (lbp_rx_buffer s) 0 = 1"
  shows "\<exists>s' s''. parse_packet s data_length = Some s'
           \<and> tx_link_state s' = STATE_FRAME
           \<and> unat (lbp_tx_buffer_length s') = 3 + (length LBP_EXTENDED_IDENTIFY_NAME - 1)
           \<and> take (length LBP_EXTENDED_IDENTIFY_NAME) (drop 3 (lbp_tx_buffer s'))
               = map of_char LBP_EXTENDED_IDENTIFY_NAME
           \<and> tx_interrupts s' = Some s''
           \<and> UDR0_sent s'' = UDR0_sent s @ frame_bytes
                ([LBP_SOURCE_ADDRESS,
                  LBP_SRC_ADDR (lbp_rx_buffer s) OR LBP_SEQNUM (lbp_rx_buffer s),
                  packet_id (lbp_tx_buffer s)]
                 @ map of_char (butlast LBP_EXTENDED_IDENTIFY_NAME))"
proof -
  from buffer_32 [OF assms(2)] obtain x0 x1 x2 x3 x4 x5 x6 x7 x8 x9 x10 x11 rest where
    tx: "lbp_tx_buffer s = x0 # x1 # x2 # x3 # x4 # x5 # x6 # x7 # x8 # x9 # x10 # x11 # rest"
    and rest: "length rest = 20" by blast
  let ?dest = "LBP_SRC_ADDR (lbp_rx_buffer s) OR LBP_SEQNUM (lbp_rx_buffer s)"
  let ?s1 = "s\<lparr>tx_link_state := STATE_FILLING,
                 lbp_tx_buffer := LBP_SOURCE_ADDRESS # ?dest # x2 # x3 # x4 # x5 # x6 # x7 # x8
                   # x9 # x10 # x11 # rest\<rparr>"
  let ?reply = "LBP_SOURCE_ADDRESS # ?dest # x2 # 0x53 # 0x52 # 0x50 # 0x20 # 0x56 # 0x30 # 0x2E
      # 0x30 # 0x20 # rest"
  let ?t = "s\<lparr>tx_link_state := STATE_FILLING,
      lbp_rx_buffer := (lbp_rx_buffer s)[0 := srcinfo (lbp_rx_buffer s) OR LBP_REPLY,
                                         2 := LBP_EXTENDED_IDENTIFY],
      lbp_tx_buffer := ?reply\<rparr>"
  have ty: "LBP_SYNC \<noteq> LBP_REPLY" by (simp add: LBP_SYNC_def LBP_REPLY_def)
  have low: "LBP_EXTENDED_IDENTIFY < 0x10"
    by (simp add: LBP_EXTENDED_IDENTIFY_def word_less_nat_alt)
  have res: "parse_reserved ?s1 data_length = lbp_send_message 8 ?t"
    using assms(3,4,5,6) by (subst reserved_page_1) simp_all
  have pp: "parse_packet s data_length = Some (lbp_send_message (of_nat 8) ?t)"
    using assms(1,3,4) ty low res
    by (simp add: parse_packet_def lbp_get_tx_buffer_def set_reply_srcinfo_def
        set_reply_destinfo_def tx)
  have "tx_interrupts (lbp_send_message (of_nat 8) ?t) =
    Some (?t\<lparr>lbp_tx_buffer_length := of_nat 8 + 3,
            lbp_tx_buffer_index := of_nat 8 + 3,
            tx_crc := crc8_bytes (take (8 + 3) ?reply) 0,
            UDR0_sent := UDR0_sent ?t @ frame_bytes (take (8 + 3) ?reply),
            tx_link_state := STATE_IDLE\<rparr>)"
    using rest
    by (intro tx_frame)
       (simp_all add: LBP_BUFFER_SIZE_def must_escape_def CHAR_STOP_def CHAR_START_def
         CHAR_ESCAPE_def)
  with pp rest show ?thesis
    by (simp add: lbp_send_message_def name_bytes tx packet_id_def
        LBP_EXTENDED_IDENTIFY_NAME_def)
qed

theorem extended_identify_page_1_reply_witness:
  "tx_link_state page_1_request = STATE_IDLE
   \<and> LBP_TYPE (lbp_rx_buffer page_1_request) = LBP_SYNC
   \<and> packet_id (lbp_rx_buffer page_1_request) = LBP_EXTENDED_IDENTIFY
   \<and> packet_data (lbp_rx_buffer page_1_request) 0 = 1
   \<and> (\<exists>s' s''. parse_packet page_1_request 1 = Some s'
         \<and> unat (lbp_tx_buffer_length s') = 3 + 8
         \<and> take 9 (drop 3 (lbp_tx_buffer s')) = map of_char ''SRP V0.0 ''
         \<and> tx_interrupts s' = Some s''
         \<and> UDR0_sent s'' = frame_bytes ([0x3F, 0x45, 0x00] @ map of_char ''SRP V0.0''))"
proof -
  have a: "tx_link_state page_1_request = STATE_IDLE"
    "length (lbp_tx_buffer page_1_request) = LBP_BUFFER_SIZE"
    "LBP_TYPE (lbp_rx_buffer page_1_request) = LBP_SYNC"
    "packet_id (lbp_rx_buffer page_1_request) = LBP_EXTENDED_IDENTIFY"
    "(1::u8) \<le> 1"
    "packet_data (lbp_rx_buffer page_1_request) 0 = 1"
    by (simp_all add: page_1_request_def reset_state_def LBP_BUFFER_SIZE_def LBP_TYPE_def
        srcinfo_def LBP_TYPE_MASK_def LBP_SYNC_def packet_id_def LBP_EXTENDED_IDENTIFY_def
        packet_data_def)
  have b: "LBP_SRC_ADDR (lbp_rx_buffer page_1_request)
             OR LBP_SEQNUM (lbp_rx_buffer page_1_request) = 0x45"
    "packet_id (lbp_tx_buffer page_1_request) = 0x00" "UDR0_sent page_1_request = []"
    by (simp_all add: page_1_request_def reset_state_def LBP_SRC_ADDR_def LBP_SEQNUM_def
        srcinfo_def destinfo_def LBP_ADDRESS_MASK_def LBP_SEQNUM_MASK_def packet_id_def)
  from extended_identify_page_1_reply [OF a] obtain s' s'' where
    p: "parse_packet page_1_request 1 = Some s'"
    and l: "unat (lbp_tx_buffer_length s') = 3 + (length LBP_EXTENDED_IDENTIFY_NAME - 1)"
    and n: "take (length LBP_EXTENDED_IDENTIFY_NAME) (drop 3 (lbp_tx_buffer s'))
              = map of_char LBP_EXTENDED_IDENTIFY_NAME"
    and t: "tx_interrupts s' = Some s''"
    and u: "UDR0_sent s'' = UDR0_sent page_1_request @ frame_bytes
                ([LBP_SOURCE_ADDRESS,
                  LBP_SRC_ADDR (lbp_rx_buffer page_1_request)
                    OR LBP_SEQNUM (lbp_rx_buffer page_1_request),
                  packet_id (lbp_tx_buffer page_1_request)]
                 @ map of_char (butlast LBP_EXTENDED_IDENTIFY_NAME))"
    by blast
  have l': "unat (lbp_tx_buffer_length s') = 3 + 8"
    using l by (simp add: LBP_EXTENDED_IDENTIFY_NAME_def)
  have len9: "length LBP_EXTENDED_IDENTIFY_NAME = 9"
    by (simp add: LBP_EXTENDED_IDENTIFY_NAME_def)
  have n': "take 9 (drop 3 (lbp_tx_buffer s')) = map of_char ''SRP V0.0 ''"
    using n unfolding len9 by (simp add: LBP_EXTENDED_IDENTIFY_NAME_def)
  have u': "UDR0_sent s'' = frame_bytes ([0x3F, 0x45, 0x00] @ map of_char ''SRP V0.0'')"
    using u by (simp add: b LBP_EXTENDED_IDENTIFY_NAME_def LBP_SOURCE_ADDRESS_def)
  from p l' n' t u' a(1,3,4,6) show ?thesis by blast
qed

text \<open>
  Claim C10. \<open>lbp_state_armed\<close> is nonzero exactly in the flight states Armed,
  Launched and Deployed, and \<open>lbp_state_error\<close> exactly in the state Error. When the
  transmit buffer is free and the receive buffer holds a status request that is not
  of type reply, \<open>parse_packet\<close> returns with a message of one data byte under way,
  and bit 0 of that byte is set exactly in the flight states Armed, Launched and
  Deployed.
\<close>

theorem state_callbacks_and_status_bit:
  "(lbp_state_armed s \<noteq> 0 \<longleftrightarrow>
      flight_state s = ARMED \<or> flight_state s = LAUNCHED \<or> flight_state s = DEPLOYED)
   \<and> (lbp_state_error s \<noteq> 0 \<longleftrightarrow> flight_state s = ERROR)
   \<and> (tx_link_state s = STATE_IDLE \<and> length (lbp_tx_buffer s) = LBP_BUFFER_SIZE
       \<and> packet_id (lbp_rx_buffer s) = LBP_STATUS_REQUEST
       \<and> LBP_TYPE (lbp_rx_buffer s) \<noteq> LBP_REPLY \<longrightarrow>
       (\<exists>s'. parse_packet s data_length = Some s'
          \<and> tx_link_state s' = STATE_FRAME
          \<and> lbp_tx_buffer_length s' = 1 + 3
          \<and> (bit (packet_data (lbp_tx_buffer s') 0) 0 \<longleftrightarrow>
               flight_state s = ARMED \<or> flight_state s = LAUNCHED \<or> flight_state s = DEPLOYED)))"
proof (intro conjI impI)
  show a: "lbp_state_armed s \<noteq> 0 \<longleftrightarrow>
      flight_state s = ARMED \<or> flight_state s = LAUNCHED \<or> flight_state s = DEPLOYED"
    by (cases "flight_state s") (simp_all add: lbp_state_armed_def)
  show "lbp_state_error s \<noteq> 0 \<longleftrightarrow> flight_state s = ERROR"
    by (simp add: lbp_state_error_def)
  assume h: "tx_link_state s = STATE_IDLE \<and> length (lbp_tx_buffer s) = LBP_BUFFER_SIZE
       \<and> packet_id (lbp_rx_buffer s) = LBP_STATUS_REQUEST
       \<and> LBP_TYPE (lbp_rx_buffer s) \<noteq> LBP_REPLY"
  then show "\<exists>s'. parse_packet s data_length = Some s'
          \<and> tx_link_state s' = STATE_FRAME
          \<and> lbp_tx_buffer_length s' = 1 + 3
          \<and> (bit (packet_data (lbp_tx_buffer s') 0) 0 \<longleftrightarrow>
               flight_state s = ARMED \<or> flight_state s = LAUNCHED \<or> flight_state s = DEPLOYED)"
    unfolding a [symmetric]
    by (simp add: parse_packet_def lbp_get_tx_buffer_def set_reply_srcinfo_def
        set_reply_destinfo_def parse_reserved_def Let_def
        LBP_STATUS_REQUEST_def LBP_NACK_def LBP_IDENTIFY_def LBP_EXTENDED_IDENTIFY_def
        LBP_NETWORK_DISCOVERY_def lbp_send_message_def set_reply_data_def
        set_packet_id_def set_packet_srcinfo_def packet_id_def LBP_TYPE_def srcinfo_def
        packet_data_def LBP_BUFFER_SIZE_def lbp_state_armed_def lbp_state_error_def)
qed

theorem state_callbacks_and_status_bit_witness:
  "flight_state status_request_deployed = DEPLOYED
   \<and> lbp_state_armed status_request_deployed = 1
   \<and> lbp_state_error status_request_deployed = 0
   \<and> tx_link_state status_request_deployed = STATE_IDLE
   \<and> packet_id (lbp_rx_buffer status_request_deployed) = LBP_STATUS_REQUEST
   \<and> LBP_TYPE (lbp_rx_buffer status_request_deployed) = LBP_SYNC
   \<and> (\<exists>s'. parse_packet status_request_deployed 0 = Some s'
         \<and> tx_link_state s' = STATE_FRAME
         \<and> lbp_tx_buffer_length s' = 4
         \<and> bit (packet_data (lbp_tx_buffer s') 0) 0)"
proof -
  have a: "flight_state status_request_deployed = DEPLOYED"
    "tx_link_state status_request_deployed = STATE_IDLE"
    "length (lbp_tx_buffer status_request_deployed) = LBP_BUFFER_SIZE"
    "packet_id (lbp_rx_buffer status_request_deployed) = LBP_STATUS_REQUEST"
    "LBP_TYPE (lbp_rx_buffer status_request_deployed) = LBP_SYNC"
    "LBP_TYPE (lbp_rx_buffer status_request_deployed) \<noteq> LBP_REPLY"
    by (simp_all add: status_request_deployed_def reset_state_def LBP_BUFFER_SIZE_def
        LBP_TYPE_def srcinfo_def LBP_TYPE_MASK_def LBP_SYNC_def LBP_REPLY_def packet_id_def
        LBP_STATUS_REQUEST_def)
  have b: "lbp_state_armed status_request_deployed = 1"
    "lbp_state_error status_request_deployed = 0"
    by (simp_all add: lbp_state_armed_def lbp_state_error_def a(1))
  from state_callbacks_and_status_bit [of status_request_deployed 0] a b show ?thesis
    by simp
qed

text \<open>
  Claim C7 does not hold of the code. The Nack branches of \<open>parse_packet\<close> write the
  type bits and the id \<open>LBP_NACK\<close> to \<open>packet\<close>, the receive buffer, and not to
  \<open>reply\<close>, so the frame that goes out carries the id byte that was in the transmit
  buffer before. After reset, the well-formed synchronous request with the unhandled
  reserved id \<open>0x08\<close> is answered by a frame whose id byte is \<open>0x00\<close>.
\<close>

theorem unknown_reserved_request_reply:
  "crc8_bytes [0x00, 0x00, 0x08] 0 = 0xC2
   \<and> map_option UDR0_sent
        (Option.bind
           (USART0_RX_bytes (reset_state 0 0 0 0 0) [0x55, 0x00, 0x00, 0x08, 0xC2, 0x5A])
           tx_interrupts)
       = Some [0x55, 0x3F, 0x00, 0x00, 0x81, 0x5A]"
  by code_simp


end
